theory Spec2Isabelle
  imports Complex_Main
begin

section \<open>Values shared by the two source files\<close>

text \<open>
  The exceptions the modelled code can raise. \<open>KeyError\<close> carries the missing key of a
  dictionary lookup; \<open>ValueError\<close> is what numpy raises for a shape that cannot be
  broadcast, a reshape that changes the size, or an invalid distribution parameter;
  \<open>TypeError\<close> is what it raises for a float where it needs an integer count.
\<close>

datatype error = AssertionError | IndexError | ValueError | TypeError | KeyError string

text \<open>
  A numpy float, without rounding: a finite value is an exact rational, and the three
  non-finite values numpy produces where Python would raise are kept apart. Signed
  zeros, rounding and overflow are not modelled; \<open>1e-4\<close>, \<open>0.1\<close> and \<open>1e-9\<close> stand for
  the exact fractions. What is proved below about computed values is therefore stated
  on ranges that doubles cannot leave by overflow, and with a tolerance (or a margin)
  of \<open>1e-9\<close> that exceeds the rounding of doubles on those ranges.
\<close>

datatype fnum = Finite rat | PosInf | NegInf | NaN

fun fadd :: "fnum \<Rightarrow> fnum \<Rightarrow> fnum" where
  "fadd NaN y = NaN"
| "fadd x NaN = NaN"
| "fadd (Finite a) (Finite b) = Finite (a + b)"
| "fadd PosInf NegInf = NaN"
| "fadd NegInf PosInf = NaN"
| "fadd PosInf y = PosInf"
| "fadd x PosInf = PosInf"
| "fadd NegInf y = NegInf"
| "fadd x NegInf = NegInf"

fun fmul :: "fnum \<Rightarrow> fnum \<Rightarrow> fnum" where
  "fmul NaN y = NaN"
| "fmul x NaN = NaN"
| "fmul (Finite a) (Finite b) = Finite (a * b)"
| "fmul (Finite a) y =
     (if a = 0 then NaN else if (0 < a) = (y = PosInf) then PosInf else NegInf)"
| "fmul x (Finite b) =
     (if b = 0 then NaN else if (0 < b) = (x = PosInf) then PosInf else NegInf)"
| "fmul x y = (if x = y then PosInf else NegInf)"

text \<open>
  numpy's true division does not raise on a zero divisor: \<open>0/0\<close> is \<open>nan\<close> and \<open>x/0\<close> is
  an infinity with the sign of \<open>x\<close> (a RuntimeWarning is all it emits, and
  \<^verbatim>\<open>creator_sim.py\<close> switches warnings off at import).
\<close>

fun fdiv :: "fnum \<Rightarrow> fnum \<Rightarrow> fnum" where
  "fdiv NaN y = NaN"
| "fdiv x NaN = NaN"
| "fdiv (Finite a) (Finite b) =
     (if b = 0 then (if a = 0 then NaN else if 0 < a then PosInf else NegInf)
      else Finite (a / b))"
| "fdiv (Finite a) y = Finite 0"
| "fdiv x (Finite b) = (if (0 \<le> b) = (x = PosInf) then PosInf else NegInf)"
| "fdiv x y = NaN"

text \<open>\<^verbatim>\<open>np.clip(x, lo, hi)\<close> is \<open>minimum(maximum(x, lo), hi)\<close>; a \<open>nan\<close> stays a \<open>nan\<close>.\<close>

fun fclip :: "rat \<Rightarrow> rat \<Rightarrow> fnum \<Rightarrow> fnum" where
  "fclip lo hi NaN = NaN"
| "fclip lo hi PosInf = Finite hi"
| "fclip lo hi NegInf = Finite (min lo hi)"
| "fclip lo hi (Finite q) = Finite (min (max q lo) hi)"

text \<open>\<^verbatim>\<open>np.clip(x, lo, None)\<close>: a lower bound only.\<close>

fun fclip_lo :: "rat \<Rightarrow> fnum \<Rightarrow> fnum" where
  "fclip_lo lo NaN = NaN"
| "fclip_lo lo PosInf = PosInf"
| "fclip_lo lo NegInf = Finite lo"
| "fclip_lo lo (Finite q) = Finite (max q lo)"

definition fsum :: "fnum list \<Rightarrow> fnum" where
  "fsum xs = foldl fadd (Finite 0) xs"

text \<open>
  A two-dimensional numpy array: its shape and its rows. The shape is stored, as numpy
  stores it, so that an array with no rows still has a number of columns (and the
  other way round).
\<close>

record array2 =
  shape0 :: nat
  shape1 :: nat
  cells :: "fnum list list"

definition well_shaped :: "array2 \<Rightarrow> bool" where
  "well_shaped A =
     (length (cells A) = shape0 A \<and> list_all (\<lambda>r. length r = shape1 A) (cells A))"

definition zeros :: "nat \<Rightarrow> nat \<Rightarrow> array2" where
  "zeros r c = \<lparr>shape0 = r, shape1 = c, cells = replicate r (replicate c (Finite 0))\<rparr>"

definition transpose2 :: "array2 \<Rightarrow> array2" where
  "transpose2 A =
     \<lparr>shape0 = shape1 A, shape1 = shape0 A,
      cells = map (\<lambda>j. map (\<lambda>r. r ! j) (cells A)) [0..<shape1 A]\<rparr>"

section \<open>The configuration dictionary and \<^verbatim>\<open>calc_startup_rec_size\<close>\<close>

text \<open>
  \<^verbatim>\<open>args\<close> is the dictionary \<^verbatim>\<open>vars(parser.parse_args(...))\<close>: its values are the
  booleans, integers and floats argparse produced. A Python \<open>bool\<close> is an \<open>int\<close> in
  arithmetic, and an operation with a float operand is a float.
\<close>

datatype pyval = PyBool bool | PyInt int | PyFloat fnum

type_synonym args = "string \<rightharpoonup> pyval"

definition lookup :: "args \<Rightarrow> string \<Rightarrow> error + pyval" where
  "lookup a k = (case a k of None \<Rightarrow> Inl (KeyError k) | Some v \<Rightarrow> Inr v)"

fun truthy :: "pyval \<Rightarrow> bool" where
  "truthy (PyBool b) = b"
| "truthy (PyInt n) = (n \<noteq> 0)"
| "truthy (PyFloat x) = (x \<noteq> Finite 0)"

fun to_float :: "pyval \<Rightarrow> fnum" where
  "to_float (PyBool b) = Finite (if b then 1 else 0)"
| "to_float (PyInt n) = Finite (of_int n)"
| "to_float (PyFloat x) = x"

fun to_int :: "pyval \<Rightarrow> int" where
  "to_int (PyBool b) = (if b then 1 else 0)"
| "to_int (PyInt n) = n"
| "to_int (PyFloat x) = 0"

fun is_float :: "pyval \<Rightarrow> bool" where
  "is_float (PyFloat x) = True"
| "is_float v = False"

definition py_mul :: "pyval \<Rightarrow> pyval \<Rightarrow> pyval" where
  "py_mul x y =
     (if is_float x \<or> is_float y then PyFloat (fmul (to_float x) (to_float y))
      else PyInt (to_int x * to_int y))"

definition py_add :: "pyval \<Rightarrow> pyval \<Rightarrow> pyval" where
  "py_add x y =
     (if is_float x \<or> is_float y then PyFloat (fadd (to_float x) (to_float y))
      else PyInt (to_int x + to_int y))"

text \<open>The result is the string \<^verbatim>\<open>"all"\<close> or a number.\<close>

datatype rec_size = AllItems | Count pyval

text \<open>
  \<^verbatim>\<open>
  def calc_startup_rec_size(args):
      if args["repeated_training"]:
          post_startup_rec_size = "all"
      else:
          total_items_in_startup = (args["items_per_creator"] * args["num_creators"]) * args["startup_iters"]
          post_startup_rec_size = total_items_in_startup + args["new_items_per_iter"]
      return post_startup_rec_size
  \<close>
  The keys are looked up in the order Python evaluates them.
\<close>

definition calc_startup_rec_size :: "args \<Rightarrow> error + rec_size" where
  "calc_startup_rec_size a =
     (case lookup a ''repeated_training'' of
        Inl e \<Rightarrow> Inl e
      | Inr rt \<Rightarrow>
          if truthy rt then Inr AllItems
          else
            (case lookup a ''items_per_creator'' of
               Inl e \<Rightarrow> Inl e
             | Inr ipc \<Rightarrow>
                 (case lookup a ''num_creators'' of
                    Inl e \<Rightarrow> Inl e
                  | Inr nc \<Rightarrow>
                      (case lookup a ''startup_iters'' of
                         Inl e \<Rightarrow> Inl e
                       | Inr si \<Rightarrow>
                           (case lookup a ''new_items_per_iter'' of
                              Inl e \<Rightarrow> Inl e
                            | Inr ni \<Rightarrow>
                                Inr (Count (py_add (py_mul (py_mul ipc nc) si) ni)))))))"

section \<open>The creator engine: \<^verbatim>\<open>ChaneyCreators\<close>\<close>

text \<open>
  The fields \<^verbatim>\<open>__init__\<close> sets, with the two the base class \<^verbatim>\<open>Creators\<close> takes from
  the keyword arguments (\<^verbatim>\<open>actual_creator_profiles\<close>, \<^verbatim>\<open>creation_probability\<close>).
  \<^verbatim>\<open>ordered_creator_ids\<close> holds outputs of \<^verbatim>\<open>np.nonzero\<close> only, so its entries are
  natural numbers. The object's own generator \<^verbatim>\<open>self.rng\<close> is not a field: what it
  returns during a call is an argument of the call.
\<close>

record creators =
  items_per_creator :: int
  learning_rate :: fnum
  actual_creator_profiles :: array2
  creation_probability :: rat
  ordered_creator_ids :: "nat list"

text \<open>
  \<^verbatim>\<open>
  def __init__(self, items_per_creator, learning_rate=0.05, **kwargs):
      self.items_per_creator = items_per_creator
      self.learning_rate = learning_rate
      super().__init__(**kwargs)
      self.rng = Generator(seed=self.seed)
      self.ordered_creator_ids = np.array([])
  \<close>
\<close>

definition ChaneyCreators ::
  "int \<Rightarrow> fnum \<Rightarrow> array2 \<Rightarrow> rat \<Rightarrow> creators" where
  "ChaneyCreators ipc lr profiles p =
     \<lparr>items_per_creator = ipc, learning_rate = lr, actual_creator_profiles = profiles,
      creation_probability = p, ordered_creator_ids = []\<rparr>"

text \<open>
  One draw of \<^verbatim>\<open>rng.binomial(1, p)\<close>, from the uniform variate \<open>u\<close> in \<open>[0, 1)\<close> the
  generator spends on it. numpy returns 0 for \<open>p = 0\<close> and 1 for \<open>p = 1\<close> whatever the
  generator's state. In between it samples by inversion from the probability of the
  outcome 0: for \<open>p \<le> 1/2\<close> the draw is 1 exactly when the variate exceeds \<open>1 - p\<close>; for
  \<open>p > 1/2\<close> it draws with \<open>1 - p\<close> and returns the complement, which is 1 exactly when
  the variate does not exceed \<open>p\<close>.
\<close>

definition binomial1 :: "rat \<Rightarrow> rat \<Rightarrow> nat" where
  "binomial1 p u =
     (if p = 0 then 0 else if p = 1 then 1
      else if p \<le> 1 / 2 then (if 1 - p < u then 1 else 0)
      else (if u \<le> p then 1 else 0))"

text \<open>\<^verbatim>\<open>np.nonzero(mask)[0]\<close>: the positions of the non-zero entries, ascending.\<close>

definition nonzero :: "nat list \<Rightarrow> nat list" where
  "nonzero ms = filter (\<lambda>i. ms ! i \<noteq> 0) [0..<length ms]"

text \<open>\<^verbatim>\<open>np.repeat(xs, n)\<close>: every element \<open>n\<close> times, in order.\<close>

definition repeat :: "nat list \<Rightarrow> nat \<Rightarrow> nat list" where
  "repeat xs n = concat (map (replicate n) xs)"

text \<open>
  What \<^verbatim>\<open>self.rng.dirichlet(alpha, size=n)\<close> returns at the loop's \<open>idx\<close>-th iteration:
  an array (of shape \<open>(n, len(alpha))\<close> in numpy), or the exception numpy raises for a
  parameter it rejects.
\<close>

type_synonym dirichlet = "nat \<Rightarrow> fnum list \<Rightarrow> nat \<Rightarrow> error + array2"

text \<open>
  \<^verbatim>\<open>A[lo:hi, :] = V\<close> for non-negative bounds. The slice is clipped to the array; \<open>V\<close>
  is broadcast to the slice's shape (an axis of length 1 stretches), and numpy raises
  ValueError when it cannot be.
\<close>

definition broadcast_row :: "nat \<Rightarrow> fnum list \<Rightarrow> fnum list" where
  "broadcast_row m r = (if length r = m then r else replicate m (hd r))"

definition assign_rows :: "array2 \<Rightarrow> nat \<Rightarrow> nat \<Rightarrow> array2 \<Rightarrow> error + array2" where
  "assign_rows A lo hi V =
     (let start = min lo (shape0 A); stop = min hi (shape0 A); len = stop - start
      in if (shape0 V = len \<or> shape0 V = 1) \<and> (shape1 V = shape1 A \<or> shape1 V = 1)
         then Inr (A\<lparr>cells :=
                 take start (cells A)
                 @ map (\<lambda>i. broadcast_row (shape1 A)
                                (cells V ! (if shape0 V = len then i else 0))) [0..<len]
                 @ drop (start + len) (cells A)\<rparr>)
         else Inl ValueError)"

text \<open>
  The loop of \<^verbatim>\<open>generate_items\<close> over \<^verbatim>\<open>enumerate(chosen_profiles)\<close>:
  \<^verbatim>\<open>
  for idx, c in enumerate(chosen_profiles):
      next_idx = (idx+1) * self.items_per_creator
      items[idx:next_idx, :] = self.rng.dirichlet(self.actual_creator_profiles[c, :] * 0.1, size=self.items_per_creator)
  \<close>
  The slice starts at \<open>idx\<close>, as the source writes it.
\<close>

fun fill_items ::
  "array2 \<Rightarrow> nat \<Rightarrow> dirichlet \<Rightarrow> (nat \<times> nat) list \<Rightarrow> array2 \<Rightarrow> error + array2" where
  "fill_items P ipc d [] items = Inr items"
| "fill_items P ipc d ((idx, c) # rest) items =
     (let next_idx = (idx + 1) * ipc
      in case d idx (map (\<lambda>x. fmul x (Finite (1 / 10))) (cells P ! c)) ipc of
           Inl e \<Rightarrow> Inl e
         | Inr V \<Rightarrow>
             (case assign_rows items idx next_idx V of
                Inl e \<Rightarrow> Inl e
              | Inr items' \<Rightarrow> fill_items P ipc d rest items'))"

text \<open>
  \<^verbatim>\<open>
  def generate_items(self):
      num_creators, num_attrs = self.actual_creator_profiles.shape
      creator_mask = self.rng.binomial(1, self.creation_probability, self.actual_creator_profiles.shape[0])
      chosen_profiles = np.nonzero(creator_mask)[0].astype(int)
      self.ordered_creator_ids = np.append(
          self.ordered_creator_ids, np.repeat(chosen_profiles, self.items_per_creator))
      items = np.zeros((self.items_per_creator * num_creators, num_attrs))
      for idx, c in enumerate(chosen_profiles): ...
      return items.T
  \<close>
  \<open>us\<close> are the uniform variates of the binomial draws and \<open>d\<close> the Dirichlet draws. The
  result is the object after the call and what the call returned or raised: the ids
  are appended before the loop, so they stay appended when the loop raises. numpy
  rejects a probability outside \<open>[0, 1]\<close> and a negative repeat count before anything
  is assigned.
\<close>

definition generate_items ::
  "creators \<Rightarrow> (nat \<Rightarrow> rat) \<Rightarrow> dirichlet \<Rightarrow> creators \<times> (error + array2)" where
  "generate_items c us d =
     (let num_creators = shape0 (actual_creator_profiles c);
          num_attrs = shape1 (actual_creator_profiles c)
      in if creation_probability c < 0 \<or> 1 < creation_probability c then (c, Inl ValueError)
         else
           let creator_mask = map (\<lambda>i. binomial1 (creation_probability c) (us i)) [0..<num_creators];
               chosen_profiles = nonzero creator_mask
           in if items_per_creator c < 0 then (c, Inl ValueError)
              else
                let ipc = nat (items_per_creator c);
                    c' = c\<lparr>ordered_creator_ids :=
                            ordered_creator_ids c @ repeat chosen_profiles ipc\<rparr>;
                    items = zeros (ipc * num_creators) num_attrs
                in (c', case fill_items (actual_creator_profiles c) ipc d
                               (enumerate 0 chosen_profiles) items of
                          Inl e \<Rightarrow> Inl e
                        | Inr items' \<Rightarrow> Inr (transpose2 items')))"

text \<open>Python's indexing of a sequence of length \<open>n\<close>: a negative index counts from the end.\<close>

definition py_index :: "nat \<Rightarrow> int \<Rightarrow> error + nat" where
  "py_index n i =
     (let j = (if i < 0 then int n + i else i)
      in if 0 \<le> j \<and> j < int n then Inr (nat j) else Inl IndexError)"

fun index_all :: "nat \<Rightarrow> int list \<Rightarrow> error + nat list" where
  "index_all n [] = Inr []"
| "index_all n (i # rest) =
     (case py_index n i of
        Inl e \<Rightarrow> Inl e
      | Inr j \<Rightarrow> (case index_all n rest of Inl e \<Rightarrow> Inl e | Inr js \<Rightarrow> Inr (j # js)))"

text \<open>
  \<^verbatim>\<open>np.add.at(P, (rows, slice(None)), W)\<close>: unbuffered, so a row index that occurs
  several times receives every one of its addends. numpy checks the indices and
  broadcasts \<open>W\<close> (whose rows have \<open>w\<close> entries) before it writes anything.
\<close>

fun add_rows :: "fnum list list \<Rightarrow> (nat \<times> fnum list) list \<Rightarrow> fnum list list" where
  "add_rows rows [] = rows"
| "add_rows rows ((i, w) # rest) = add_rows (rows[i := map2 fadd (rows ! i) w]) rest"

definition add_at :: "array2 \<Rightarrow> nat list \<Rightarrow> nat \<Rightarrow> fnum list list \<Rightarrow> error + array2" where
  "add_at P idxs w W =
     (if \<not> list_all (\<lambda>i. i < shape0 P) idxs then Inl IndexError
      else if \<not> (w = shape1 P \<or> w = 1) then Inl ValueError
      else Inr (P\<lparr>cells := add_rows (cells P) (zip idxs (map (broadcast_row (shape1 P)) W))\<rparr>))"

definition normalize_rows :: "fnum list list \<Rightarrow> fnum list list" where
  "normalize_rows rows = map (\<lambda>r. map (\<lambda>x. fdiv x (fsum r)) r) rows"

definition clip_rows :: "fnum list list \<Rightarrow> fnum list list" where
  "clip_rows rows = map (map (fclip (1 / 10000) 1)) rows"

text \<open>
  \<^verbatim>\<open>
  def update_profiles(self, interactions, items):
      assert len(self.ordered_creator_ids) == items.shape[1]
      item_ids = interactions.reshape(-1)
      creators_to_update = self.ordered_creator_ids[item_ids].astype(int)
      weighted_items = (self.learning_rate * items[:, item_ids]).T
      np.add.at(self.actual_creator_profiles, (creators_to_update, slice(None)), weighted_items)
      self.actual_creator_profiles /= self.actual_creator_profiles.sum(axis=1)[:, np.newaxis]
      self.actual_creator_profiles = np.clip(self.actual_creator_profiles, 1e-4, 1)
  \<close>
  \<open>interactions\<close> is the integer matrix of chosen item indices, one row per user.
  \<open>accumulate\<close> is the function up to \<^verbatim>\<open>np.add.at\<close>: the profiles as they stand at the
  renormalisation step, or the exception. Every raise comes before the first write, so
  an error leaves the object as it was; the last two statements raise nothing.
\<close>

definition accumulate :: "creators \<Rightarrow> int list list \<Rightarrow> array2 \<Rightarrow> error + array2" where
  "accumulate c interactions items =
     (if length (ordered_creator_ids c) \<noteq> shape1 items then Inl AssertionError
      else
        case index_all (length (ordered_creator_ids c)) (concat interactions) of
          Inl e \<Rightarrow> Inl e
        | Inr item_ids \<Rightarrow>
            let creators_to_update = map (\<lambda>j. ordered_creator_ids c ! j) item_ids;
                weighted_items =
                  map (\<lambda>j. map (\<lambda>r. fmul (learning_rate c) (r ! j)) (cells items)) item_ids
            in add_at (actual_creator_profiles c) creators_to_update
                 (shape0 items) weighted_items)"

definition update_profiles :: "creators \<Rightarrow> int list list \<Rightarrow> array2 \<Rightarrow> error + creators" where
  "update_profiles c interactions items =
     (case accumulate c interactions items of
        Inl e \<Rightarrow> Inl e
      | Inr P \<Rightarrow>
          Inr (c\<lparr>actual_creator_profiles :=
                   P\<lparr>cells := clip_rows (normalize_rows (cells P))\<rparr>\<rparr>))"

section \<open>The driver's use of the creator engine\<close>

text \<open>An integer count out of the dictionary; a float is not one.\<close>

fun as_int :: "pyval \<Rightarrow> error + int" where
  "as_int (PyBool b) = Inr (if b then 1 else 0)"
| "as_int (PyInt n) = Inr n"
| "as_int (PyFloat x) = Inl TypeError"

text \<open>The first of the keys, in order, that the dictionary lacks.\<close>

fun first_missing :: "args \<Rightarrow> string list \<Rightarrow> error option" where
  "first_missing a [] = None"
| "first_missing a (k # ks) = (case a k of None \<Rightarrow> Some (KeyError k) | Some v \<Rightarrow> first_missing a ks)"

text \<open>
  \<^verbatim>\<open>
  def init_sim_state(user_profiles, target_user_profiles, creator_profiles, args, rng):
      u = ExtendedUsers(..., size=(args["num_users"], args["num_attrs"]), num_users=args["num_users"],
          attention_exp=args["attention_exp"], repeat_interactions=False, drift=args["drift"])
      c = ChaneyCreators(
          args["items_per_creator"],
          actual_creator_profiles=creator_profiles.copy(),
          creation_probability=1.0,
          learning_rate=args["learning_rate"])
      empty_item_set = np.array([]).reshape((args["num_attrs"], 0))
      init_params = {"num_items_per_iter": args["new_items_per_iter"], ...}
      run_params = {"random_items_per_iter": args["new_items_per_iter"], ...}
      return u, c, empty_item_set, init_params, run_params
  \<close>
  The model returns the creators and the empty item set; the users and the two
  parameter dictionaries go to the recommender library unchanged. The record holds an
  integer count, so a float \<^verbatim>\<open>items_per_creator\<close> (which numpy rejects at the first
  \<^verbatim>\<open>np.repeat\<close>) is rejected here.
\<close>

definition init_sim_state :: "array2 \<Rightarrow> args \<Rightarrow> error + creators \<times> array2" where
  "init_sim_state creator_profiles a =
     (case first_missing a [''num_users'', ''num_attrs'', ''attention_exp'', ''drift'',
                            ''items_per_creator'', ''learning_rate'', ''new_items_per_iter''] of
        Some e \<Rightarrow> Inl e
      | None \<Rightarrow>
          (case as_int (the (a ''items_per_creator'')) of
             Inl e \<Rightarrow> Inl e
           | Inr ipc \<Rightarrow>
               (case as_int (the (a ''num_attrs'')) of
                  Inl e \<Rightarrow> Inl e
                | Inr na \<Rightarrow>
                    if na < 0 then Inl ValueError
                    else Inr (ChaneyCreators ipc (to_float (the (a ''learning_rate'')))
                                creator_profiles 1,
                              zeros (nat na) 0))))"

text \<open>
  What a run does to the creators: the recommender library calls \<^verbatim>\<open>generate_items\<close>
  and \<^verbatim>\<open>update_profiles\<close>, each with the draws and arguments of that call, and the
  first exception ends the run.
\<close>

datatype step = Generate "nat \<Rightarrow> rat" dirichlet | Update "int list list" array2

fun is_generate :: "step \<Rightarrow> bool" where
  "is_generate (Generate us d) = True"
| "is_generate (Update interactions items) = False"

fun run_steps :: "creators \<Rightarrow> step list \<Rightarrow> error + creators" where
  "run_steps c [] = Inr c"
| "run_steps c (Generate us d # rest) =
     (case generate_items c us d of
        (c', Inl e) \<Rightarrow> Inl e
      | (c', Inr items) \<Rightarrow> run_steps c' rest)"
| "run_steps c (Update interactions items # rest) =
     (case update_profiles c interactions items of
        Inl e \<Rightarrow> Inl e
      | Inr c' \<Rightarrow> run_steps c' rest)"

section \<open>The ideal recommender's scoring closure\<close>

text \<open>\<^verbatim>\<open>A @ B\<close>: numpy raises ValueError when the inner dimensions differ.\<close>

definition matmul :: "array2 \<Rightarrow> array2 \<Rightarrow> error + array2" where
  "matmul A B =
     (if shape1 A \<noteq> shape0 B then Inl ValueError
      else Inr \<lparr>shape0 = shape0 A, shape1 = shape1 B,
               cells = map (\<lambda>r. map (\<lambda>j. fsum (map2 fmul r (map (\<lambda>b. b ! j) (cells B))))
                                   [0..<shape1 B]) (cells A)\<rparr>)"

text \<open>\<^verbatim>\<open>np.hstack((A, B))\<close> of two matrices: they must have the same number of rows.\<close>

definition hstack :: "array2 \<Rightarrow> array2 \<Rightarrow> error + array2" where
  "hstack A B =
     (if shape0 A \<noteq> shape0 B then Inl ValueError
      else Inr \<lparr>shape0 = shape0 A, shape1 = shape1 A + shape1 B,
               cells = map2 (@) (cells A) (cells B)\<rparr>)"

text \<open>\<^verbatim>\<open>np.ones((r, c)) * x\<close>.\<close>

definition full :: "nat \<Rightarrow> nat \<Rightarrow> fnum \<Rightarrow> array2" where
  "full r c x = \<lparr>shape0 = r, shape1 = c, cells = replicate r (replicate c x)\<rparr>"

text \<open>\<^verbatim>\<open>A[:r, :c]\<close>.\<close>

definition leading :: "array2 \<Rightarrow> nat \<Rightarrow> nat \<Rightarrow> array2" where
  "leading A r c =
     \<lparr>shape0 = min r (shape0 A), shape1 = min c (shape1 A),
      cells = map (take c) (take r (cells A))\<rparr>"

text \<open>
  \<^verbatim>\<open>np.array([]).reshape((r, c))\<close>: an array of no elements takes the shape only when
  \<open>r * c = 0\<close>; numpy raises ValueError otherwise.
\<close>

definition empty_utils :: "nat \<Rightarrow> nat \<Rightarrow> error + array2" where
  "empty_utils r c =
     (if r * c = 0 then Inr \<lparr>shape0 = r, shape1 = c, cells = replicate r []\<rparr>
      else Inl ValueError)"

text \<open>\<^verbatim>\<open>np.clip(true_utils_mean, 1e-9, None)\<close>.\<close>

definition clip_means :: "array2 \<Rightarrow> array2" where
  "clip_means M = M\<lparr>cells := map (map (fclip_lo (1 / 1000000000))) (cells M)\<rparr>"

text \<open>
  From the clipped mean utilities to the matrix \<^verbatim>\<open>generator.beta\<close> returns for them:
  \<^verbatim>\<open>mu_sigma_to_alpha_beta\<close> (module \<^verbatim>\<open>chaney_utils\<close>) followed by the draw of size
  \<open>(num_users, num_items)\<close>, or the exception either raises. The draw depends on the
  generator's state, so every call of the scoring function has a draw of its own.
\<close>

type_synonym beta_draw = "array2 \<Rightarrow> error + array2"

text \<open>
  \<^verbatim>\<open>
  true_user_item_utils = None
  def model_score_fn(user_attrs, item_attrs):
      nonlocal true_user_item_utils
      num_users, num_items = user_attrs.shape[0], item_attrs.shape[1]
      if true_user_item_utils is None:
          true_user_item_utils = np.array([]).reshape((num_users, num_items))
      if item_attrs.shape[1] == num_items_per_iter: # EDGE CASE: when num_items_per_iter = num_items
          true_utils_mean = user_attrs @ item_attrs
          true_utils_mean = np.clip(true_utils_mean, 1e-9, None)
          user_alphas, user_betas = mu_sigma_to_alpha_beta(true_utils_mean, sigma)
          true_utility = generator.beta(user_alphas, user_betas, size=(num_users, num_items))
          true_user_item_utils = np.hstack((true_user_item_utils, true_utility))
          return np.ones(true_user_item_utils.shape) * float('-inf')
      else:
          assert (num_users, num_items) == true_user_item_utils.shape
          return true_user_item_utils[:num_users, :num_items].copy()
  \<close>
  The closure's variable \<^verbatim>\<open>true_user_item_utils\<close> is the state: the function takes it
  and returns it with the result.
\<close>

definition model_score_fn ::
  "int \<Rightarrow> beta_draw \<Rightarrow> array2 option \<Rightarrow> array2 \<Rightarrow> array2
     \<Rightarrow> array2 option \<times> (error + array2)" where
  "model_score_fn num_items_per_iter beta true_user_item_utils user_attrs item_attrs =
     (let num_users = shape0 user_attrs; num_items = shape1 item_attrs
      in case (case true_user_item_utils of
                 None \<Rightarrow> empty_utils num_users num_items
               | Some U \<Rightarrow> Inr U) of
           Inl e \<Rightarrow> (true_user_item_utils, Inl e)
         | Inr U \<Rightarrow>
             if int (shape1 item_attrs) = num_items_per_iter then
               (case matmul user_attrs item_attrs of
                  Inl e \<Rightarrow> (Some U, Inl e)
                | Inr M \<Rightarrow>
                    (case beta (clip_means M) of
                       Inl e \<Rightarrow> (Some U, Inl e)
                     | Inr true_utility \<Rightarrow>
                         (case hstack U true_utility of
                            Inl e \<Rightarrow> (Some U, Inl e)
                          | Inr U' \<Rightarrow> (Some U', Inr (full (shape0 U') (shape1 U') NegInf)))))
             else if (num_users, num_items) = (shape0 U, shape1 U)
               then (Some U, Inr (leading U num_users num_items))
               else (Some U, Inl AssertionError))"

section \<open>The legacy popularity recommender (\<^verbatim>\<open>src/popularity.py\<close>)\<close>

text \<open>
  The fields \<^verbatim>\<open>recommend\<close> reads. \<^verbatim>\<open>theta_t\<close> and \<^verbatim>\<open>beta_t\<close> are the integer arrays
  \<^verbatim>\<open>__init__\<close> creates; \<^verbatim>\<open>num_users\<close>, \<^verbatim>\<open>num_items\<close> and the score matrix \<^verbatim>\<open>s_t\<close> are
  kept by the base class \<^verbatim>\<open>Recommender\<close> (module \<^verbatim>\<open>recommender\<close>), so \<^verbatim>\<open>s_t\<close> is taken
  as it comes: any integer matrix, given by its rows.
\<close>

record popularity_recommender =
  num_users :: nat
  num_items :: nat
  theta_t :: "int list list"
  beta_t :: "int list list"
  s_t :: "int list list"

text \<open>
  \<^verbatim>\<open>row.argsort()\<close>: the indices of a row in ascending order of their scores. numpy's
  default sort promises no order among equal scores, so the routine is an argument of
  the model; \<open>ascending row (argsort row)\<close> is what numpy promises of it on a row: a
  permutation of the row's indices along which the scores do not decrease.
\<close>

type_synonym argsort = "int list \<Rightarrow> nat list"

definition ascending :: "int list \<Rightarrow> nat list \<Rightarrow> bool" where
  "ascending row rec0 =
     (length rec0 = length row \<and> distinct rec0 \<and> list_all (\<lambda>i. i < length row) rec0
      \<and> sorted (map (\<lambda>i. row ! i) rec0))"

text \<open>One such routine: the sort that keeps equal scores in index order.\<close>

definition stable_argsort :: argsort where
  "stable_argsort xs = sort_key (\<lambda>i. xs ! i) [0..<length xs]"

text \<open>\<^verbatim>\<open>p.cumsum()\<close>.\<close>

definition cumsum :: "rat list \<Rightarrow> rat list" where
  "cumsum xs = map (\<lambda>i. sum_list (take (Suc i) xs)) [0..<length xs]"

text \<open>
  \<^verbatim>\<open>cdf.searchsorted(u, side='right')\<close> on a non-decreasing \<open>cdf\<close>: the number of
  entries that are at most \<open>u\<close>.
\<close>

definition searchsorted_right :: "rat list \<Rightarrow> rat \<Rightarrow> nat" where
  "searchsorted_right cdf u = length (takeWhile (\<lambda>c. c \<le> u) cdf)"

text \<open>\<^verbatim>\<open>p = np.arange(1, n + 1)\<close> and then \<^verbatim>\<open>p/p.sum()\<close>.\<close>

definition rank_weights :: "nat \<Rightarrow> rat list" where
  "rank_weights n = map (\<lambda>i. of_nat i / of_nat (sum_list [1..<n + 1])) [1..<n + 1]"

text \<open>
  What \<^verbatim>\<open>np.random.choice\<close> builds from \<open>p\<close>: \<^verbatim>\<open>cdf = p.cumsum(); cdf /= cdf[-1]\<close>,
  here in exact arithmetic. In doubles every entry is the exact one up to a relative
  error of about \<open>2 * (n + 1) * 2^-53\<close> for \<open>n\<close> weights, so a variate next to an entry
  can fall on its other side.
\<close>

definition choice_cdf :: "rat list \<Rightarrow> rat list" where
  "choice_cdf p = map (\<lambda>c. c / last (cumsum p)) (cumsum p)"

text \<open>
  \<^verbatim>\<open>
  def recommend(self, k=1):
      rec = self.s_t.argsort()
      p = np.arange(1, self.num_items + 1)
      return np.random.choice(rec[0], p=p/p.sum(), size=(self.num_users, k))
  \<close>
  \<^verbatim>\<open>np.random.choice\<close> is the method of numpy's process-wide generator, with its
  default \<^verbatim>\<open>replace=True\<close>: it checks that \<open>a\<close> and \<open>p\<close> have the same, non-zero
  length, takes \<open>num_users * k\<close> uniform variates from the generator (one per cell,
  row by row) and returns \<^verbatim>\<open>a[cdf.searchsorted(u, side='right')]\<close> for each. The
  generator's state is the stream \<open>np_random\<close> of variates it will produce next; the
  function returns the stream left after the call together with the result. Only the
  first row of the sorted matrix is used.
\<close>

definition recommend ::
  "popularity_recommender \<Rightarrow> nat \<Rightarrow> argsort \<Rightarrow> (nat \<Rightarrow> rat)
     \<Rightarrow> (nat \<Rightarrow> rat) \<times> (error + nat list list)" where
  "recommend r k argsort np_random =
     (case s_t r of
        [] \<Rightarrow> (np_random, Inl IndexError)
      | row # others \<Rightarrow>
          let rec0 = argsort row;
              p = rank_weights (num_items r)
          in if length rec0 \<noteq> length p \<or> length p = 0 then (np_random, Inl ValueError)
             else (\<lambda>t. np_random (t + num_users r * k),
                   Inr (map (\<lambda>i. map (\<lambda>j. rec0 ! searchsorted_right (choice_cdf p)
                                                  (np_random (i * k + j))) [0..<k])
                          [0..<num_users r])))"

section \<open>Well-formed inputs of \<^verbatim>\<open>update_profiles\<close>\<close>

text \<open>A finite, non-negative float, and the value of a finite float.\<close>

fun nnf :: "fnum \<Rightarrow> bool" where
  "nnf (Finite q) = (0 \<le> q)"
| "nnf x = False"

fun fval :: "fnum \<Rightarrow> rat" where
  "fval (Finite q) = q"
| "fval x = 0"

text \<open>
  A profile row as the Dirichlet initialisation gives it and as every update leaves
  it: \<open>m\<close> finite non-negative entries with a positive sum.
\<close>

definition good_row :: "nat \<Rightarrow> fnum list \<Rightarrow> bool" where
  "good_row m r = (length r = m \<and> list_all nnf r \<and> 0 < sum_list (map fval r))"

definition profiles_ok :: "array2 \<Rightarrow> bool" where
  "profiles_ok P = (length (cells P) = shape0 P \<and> list_all (good_row (shape1 P)) (cells P))"

text \<open>An item catalog: a rectangular array of finite non-negative attribute values.\<close>

definition items_ok :: "array2 \<Rightarrow> bool" where
  "items_ok items = (well_shaped items \<and> list_all (list_all nnf) (cells items))"

text \<open>
  The values the simulation feeds the update: a finite float between 0 and 1 (a
  coordinate of a Dirichlet draw, a clamped profile coordinate, a learning rate).
\<close>

fun in_unit :: "fnum \<Rightarrow> bool" where
  "in_unit (Finite q) = (0 \<le> q \<and> q \<le> 1)"
| "in_unit x = False"

definition unit_profiles :: "array2 \<Rightarrow> bool" where
  "unit_profiles P = (profiles_ok P \<and> list_all (list_all in_unit) (cells P))"

definition unit_items :: "array2 \<Rightarrow> bool" where
  "unit_items items = (well_shaped items \<and> list_all (list_all in_unit) (cells items))"

section \<open>Inputs for the concrete evaluations\<close>

text \<open>
  A Dirichlet draw of the right shape: \<open>n\<close> copies of a corner of the simplex (what a
  draw at concentration \<open>0.1\<close> is close to).
\<close>

definition one_hot :: "nat \<Rightarrow> nat \<Rightarrow> fnum list" where
  "one_hot n k = map (\<lambda>j. if j = k then Finite 1 else Finite 0) [0..<n]"

definition example_dirichlet :: dirichlet where
  "example_dirichlet idx alpha n =
     Inr \<lparr>shape0 = n, shape1 = length alpha,
          cells = replicate n (one_hot (length alpha) (idx mod length alpha))\<rparr>"

text \<open>Two creators over two attributes, each profile on the simplex.\<close>

definition example_profiles :: array2 where
  "example_profiles =
     \<lparr>shape0 = 2, shape1 = 2,
      cells = [[Finite (1 / 2), Finite (1 / 2)], [Finite (1 / 4), Finite (3 / 4)]]\<rparr>"

definition example_args :: args where
  "example_args =
     [''num_users'' \<mapsto> PyInt 1, ''num_attrs'' \<mapsto> PyInt 2,
      ''attention_exp'' \<mapsto> PyFloat (Finite (- 4 / 5)), ''drift'' \<mapsto> PyFloat (Finite (1 / 50)),
      ''items_per_creator'' \<mapsto> PyInt 1, ''learning_rate'' \<mapsto> PyFloat (Finite (1 / 20)),
      ''new_items_per_iter'' \<mapsto> PyInt 2]"

text \<open>
  One creator over three attributes whose profile satisfies the invariant (entries in
  \<open>[1e-4, 1]\<close>, sum 1), its single item \<open>(1, 0, 0)\<close>, and one interaction with it.
\<close>

definition drifted_creators :: creators where
  "drifted_creators =
     \<lparr>items_per_creator = 1, learning_rate = Finite 1,
      actual_creator_profiles =
        \<lparr>shape0 = 1, shape1 = 3,
         cells = [[Finite (9998 / 10000), Finite (1 / 10000), Finite (1 / 10000)]]\<rparr>,
      creation_probability = 1, ordered_creator_ids = [0]\<rparr>"

definition drifted_items :: array2 where
  "drifted_items = \<lparr>shape0 = 3, shape1 = 1, cells = [[Finite 1], [Finite 0], [Finite 0]]\<rparr>"

text \<open>A creator whose profile row is all zeros, before any item exists.\<close>

definition zero_row_creators :: creators where
  "zero_row_creators =
     \<lparr>items_per_creator = 1, learning_rate = Finite (1 / 20),
      actual_creator_profiles = \<lparr>shape0 = 1, shape1 = 2, cells = [[Finite 0, Finite 0]]\<rparr>,
      creation_probability = 1, ordered_creator_ids = []\<rparr>"

text \<open>
  Two creators over two attributes, the first with an all-zero profile row, and the
  one item \<open>(1, 0)\<close> in the catalog, made by the second.
\<close>

definition idle_creators :: creators where
  "idle_creators =
     \<lparr>items_per_creator = 1, learning_rate = Finite (1 / 20),
      actual_creator_profiles =
        \<lparr>shape0 = 2, shape1 = 2,
         cells = [[Finite 0, Finite 0], [Finite (1 / 2), Finite (1 / 2)]]\<rparr>,
      creation_probability = 1, ordered_creator_ids = [1]\<rparr>"

definition idle_items :: array2 where
  "idle_items = \<lparr>shape0 = 2, shape1 = 1, cells = [[Finite 1], [Finite 0]]\<rparr>"

text \<open>
  One user, one attribute: a cache holding one utility, a batch of one item, a draw
  that returns the mean itself, and a draw that raises.
\<close>

definition example_beta :: beta_draw where
  "example_beta M = Inr M"

definition failing_beta :: beta_draw where
  "failing_beta M = Inl ValueError"

definition example_utils :: array2 where
  "example_utils = \<lparr>shape0 = 1, shape1 = 1, cells = [[Finite (1 / 2)]]\<rparr>"

definition example_users :: array2 where
  "example_users = \<lparr>shape0 = 1, shape1 = 1, cells = [[Finite 1]]\<rparr>"

definition example_item :: array2 where
  "example_item = \<lparr>shape0 = 1, shape1 = 1, cells = [[Finite (1 / 4)]]\<rparr>"

text \<open>One user and two items, the second the more popular.\<close>

definition two_items :: popularity_recommender where
  "two_items = \<lparr>num_users = 1, num_items = 2, theta_t = [[1]], beta_t = [[0, 1]], s_t = [[0, 1]]\<rparr>"


section \<open>Theorems\<close>

subsection \<open>The exposure window after startup\<close>

text \<open>
  Claim C8. For every configuration, \<^verbatim>\<open>calc_startup_rec_size\<close> returns \<^verbatim>\<open>"all"\<close> when
  \<^verbatim>\<open>repeated_training\<close> is true, and otherwise exactly
  \<open>items_per_creator * num_creators * startup_iters + new_items_per_iter\<close>: everything
  produced during startup plus one step of interleaved new items. A configuration is
  what argparse builds: the flag is a boolean and the four counts are integers.
\<close>

theorem calc_startup_rec_size_spec:
  assumes "a ''repeated_training'' = Some (PyBool rt)"
    and "a ''items_per_creator'' = Some (PyInt ipc)"
    and "a ''num_creators'' = Some (PyInt nc)"
    and "a ''startup_iters'' = Some (PyInt si)"
    and "a ''new_items_per_iter'' = Some (PyInt ni)"
  shows "calc_startup_rec_size a =
           Inr (if rt then AllItems else Count (PyInt (ipc * nc * si + ni)))"
  using assms
  by (simp add: calc_startup_rec_size_def lookup_def py_mul_def py_add_def)

theorem calc_startup_rec_size_spec_witness:
  "calc_startup_rec_size
     [''repeated_training'' \<mapsto> PyBool False, ''items_per_creator'' \<mapsto> PyInt 1,
      ''num_creators'' \<mapsto> PyInt 10, ''startup_iters'' \<mapsto> PyInt 50,
      ''new_items_per_iter'' \<mapsto> PyInt 10] = Inr (Count (PyInt 510))
   \<and> calc_startup_rec_size
     [''repeated_training'' \<mapsto> PyBool True, ''items_per_creator'' \<mapsto> PyInt 1,
      ''num_creators'' \<mapsto> PyInt 10, ''startup_iters'' \<mapsto> PyInt 50,
      ''new_items_per_iter'' \<mapsto> PyInt 10] = Inr AllItems"
  using calc_startup_rec_size_spec
          [of "[''repeated_training'' \<mapsto> PyBool False, ''items_per_creator'' \<mapsto> PyInt 1,
                ''num_creators'' \<mapsto> PyInt 10, ''startup_iters'' \<mapsto> PyInt 50,
                ''new_items_per_iter'' \<mapsto> PyInt 10]" False 1 10 50 10]
        calc_startup_rec_size_spec
          [of "[''repeated_training'' \<mapsto> PyBool True, ''items_per_creator'' \<mapsto> PyInt 1,
                ''num_creators'' \<mapsto> PyInt 10, ''startup_iters'' \<mapsto> PyInt 50,
                ''new_items_per_iter'' \<mapsto> PyInt 10]" True 1 10 50 10]
  by simp

subsection \<open>Which creators \<^verbatim>\<open>generate_items\<close> selects, and what it appends\<close>

lemma nonzero_all_ones: "nonzero (map (\<lambda>i. binomial1 1 (us i)) [0..<n]) = [0..<n]"
  by (simp add: nonzero_def binomial1_def)

lemma generate_items_ids_full:
  assumes "creation_probability c = 1"
  shows "ordered_creator_ids (fst (generate_items c us d)) =
           ordered_creator_ids c
           @ repeat [0..<shape0 (actual_creator_profiles c)] (nat (items_per_creator c))"
  using assms
  by (simp add: generate_items_def Let_def nonzero_all_ones repeat_def)

lemma generate_items_frame:
  "creation_probability (fst (generate_items c us d)) = creation_probability c
   \<and> items_per_creator (fst (generate_items c us d)) = items_per_creator c
   \<and> learning_rate (fst (generate_items c us d)) = learning_rate c
   \<and> actual_creator_profiles (fst (generate_items c us d)) = actual_creator_profiles c"
  by (simp add: generate_items_def Let_def)

lemma update_profiles_frame:
  assumes "update_profiles c interactions items = Inr c'"
  shows "creation_probability c' = creation_probability c
   \<and> items_per_creator c' = items_per_creator c
   \<and> learning_rate c' = learning_rate c
   \<and> ordered_creator_ids c' = ordered_creator_ids c
   \<and> shape0 (actual_creator_profiles c') = shape0 (actual_creator_profiles c)
   \<and> shape1 (actual_creator_profiles c') = shape1 (actual_creator_profiles c)"
  using assms
  by (auto simp: update_profiles_def accumulate_def add_at_def Let_def split: if_splits sum.splits)

lemma count_list_upt: "count_list [0..<n] i = (if i < n then 1 else 0)"
  by (induction n) (auto simp: count_list_append)

lemma count_list_replicate: "count_list (replicate k x) i = (if x = i then k else 0)"
  by (induction k) auto

lemma count_list_repeat: "count_list (repeat xs k) i = k * count_list xs i"
  by (induction xs) (auto simp: repeat_def count_list_append count_list_replicate)

lemma length_repeat: "length (repeat xs k) = length xs * k"
  by (induction xs) (auto simp: repeat_def)

lemma count_list_concat_replicate:
  "count_list (concat (replicate m xs)) i = m * count_list xs i"
  by (induction m) (auto simp: count_list_append)

lemma length_concat_replicate: "length (concat (replicate m xs)) = m * length xs"
  by (induction m) auto

text \<open>
  With \<open>creation_probability = 1\<close>, a run that has not raised has appended one block
  \<open>0, ..., 0, 1, ..., 1, ...\<close> per call of \<^verbatim>\<open>generate_items\<close>; nothing else touches the
  ids, the probability, the count per creator or the number of creators.
\<close>

lemma run_steps_ids:
  assumes "run_steps c steps = Inr c'" and "creation_probability c = 1"
  shows "creation_probability c' = 1
    \<and> items_per_creator c' = items_per_creator c
    \<and> shape0 (actual_creator_profiles c') = shape0 (actual_creator_profiles c)
    \<and> ordered_creator_ids c' =
        ordered_creator_ids c
        @ concat (replicate (length (filter is_generate steps))
            (repeat [0..<shape0 (actual_creator_profiles c)] (nat (items_per_creator c))))"
  using assms
proof (induction steps arbitrary: c)
  case Nil
  then show ?case by simp
next
  case (Cons s steps)
  show ?case
  proof (cases s)
    case (Generate us d)
    obtain c1 r where g: "generate_items c us d = (c1, r)"
      by (cases "generate_items c us d")
    with Cons.prems Generate obtain items
      where r: "r = Inr items" and rest: "run_steps c1 steps = Inr c'"
      by (cases r) auto
    have c1: "c1 = fst (generate_items c us d)" using g by simp
    have fr: "creation_probability c1 = 1" "items_per_creator c1 = items_per_creator c"
      "actual_creator_profiles c1 = actual_creator_profiles c"
      using generate_items_frame [of c us d] Cons.prems(2) c1 by simp_all
    have ids: "ordered_creator_ids c1 = ordered_creator_ids c
           @ repeat [0..<shape0 (actual_creator_profiles c)] (nat (items_per_creator c))"
      using generate_items_ids_full [OF Cons.prems(2), of us d] c1 by simp
    from Cons.IH [OF rest fr(1)] fr ids Generate show ?thesis by simp
  next
    case (Update interactions items)
    with Cons.prems obtain c1 where u: "update_profiles c interactions items = Inr c1"
      and rest: "run_steps c1 steps = Inr c'"
      by (auto split: sum.splits)
    from update_profiles_frame [OF u] Cons.prems(2) have fr: "creation_probability c1 = 1"
      "items_per_creator c1 = items_per_creator c"
      "shape0 (actual_creator_profiles c1) = shape0 (actual_creator_profiles c)"
      "ordered_creator_ids c1 = ordered_creator_ids c" by simp_all
    from Cons.IH [OF rest fr(1)] fr Update show ?thesis by simp
  qed
qed

lemma init_sim_state_creators:
  assumes "init_sim_state profiles a = Inr (c, e)"
  shows "creation_probability c = 1 \<and> ordered_creator_ids c = []
     \<and> actual_creator_profiles c = profiles"
  using assms
  by (auto simp: init_sim_state_def ChaneyCreators_def split: option.splits sum.splits if_splits)

text \<open>
  Claim C10. Every simulation the driver builds (\<^verbatim>\<open>init_sim_state\<close>) fixes the
  creators' \<^verbatim>\<open>creation_probability\<close> at 1.0, so the Bernoulli mask selects every
  creator at every step: in any state \<open>c\<close> a driver-built run reaches, the probability
  is still 1, the ids hold \<open>num_creators * items_per_creator\<close> entries per
  \<^verbatim>\<open>generate_items\<close> call made so far, every creator id occurs the same number of
  times (\<open>items_per_creator\<close> per call), and the next call appends exactly the block of
  \<open>num_creators * items_per_creator\<close> ids, whatever the generator draws.
\<close>

theorem driver_selects_every_creator:
  assumes "init_sim_state profiles a = Inr (c0, e)"
    and "run_steps c0 steps = Inr c"
  shows "creation_probability c = 1
    \<and> length (ordered_creator_ids c) =
        length (filter is_generate steps) * (shape0 profiles * nat (items_per_creator c0))
    \<and> (\<forall>i < shape0 profiles. count_list (ordered_creator_ids c) i =
          length (filter is_generate steps) * nat (items_per_creator c0))
    \<and> (\<forall>us d. ordered_creator_ids (fst (generate_items c us d)) =
          ordered_creator_ids c @ repeat [0..<shape0 profiles] (nat (items_per_creator c0)))"
proof -
  from init_sim_state_creators [OF assms(1)]
  have i: "creation_probability c0 = 1" "ordered_creator_ids c0 = []"
    "actual_creator_profiles c0 = profiles" by simp_all
  from run_steps_ids [OF assms(2) i(1)] i
  have r: "creation_probability c = 1" "items_per_creator c = items_per_creator c0"
    "shape0 (actual_creator_profiles c) = shape0 profiles"
    "ordered_creator_ids c = concat (replicate (length (filter is_generate steps))
            (repeat [0..<shape0 profiles] (nat (items_per_creator c0))))"
    by simp_all
  have "length (ordered_creator_ids c) =
        length (filter is_generate steps) * (shape0 profiles * nat (items_per_creator c0))"
    by (simp add: r(4) length_concat_replicate length_repeat)
  moreover have "\<forall>i < shape0 profiles. count_list (ordered_creator_ids c) i =
          length (filter is_generate steps) * nat (items_per_creator c0)"
    by (simp add: r(4) count_list_concat_replicate count_list_repeat count_list_upt)
  moreover have "\<forall>us d. ordered_creator_ids (fst (generate_items c us d)) =
          ordered_creator_ids c @ repeat [0..<shape0 profiles] (nat (items_per_creator c0))"
    using generate_items_ids_full [OF r(1)] r(2) r(3) by simp
  ultimately show ?thesis using r(1) by blast
qed

text \<open>
  The theorem at a run of two creators, one item each: generate, update on the two
  items just created, generate again.
\<close>

theorem driver_selects_every_creator_witness:
  "init_sim_state example_profiles example_args =
     Inr (ChaneyCreators 1 (Finite (1 / 20)) example_profiles 1, zeros 2 0)
   \<and> run_steps (ChaneyCreators 1 (Finite (1 / 20)) example_profiles 1)
        [Generate (\<lambda>i. 0) example_dirichlet,
         Update [[0], [1]]
           \<lparr>shape0 = 2, shape1 = 2, cells = [[Finite 1, Finite 0], [Finite 0, Finite 1]]\<rparr>,
         Generate (\<lambda>i. 0) example_dirichlet] =
      Inr \<lparr>items_per_creator = 1, learning_rate = Finite (1 / 20),
           actual_creator_profiles =
             \<lparr>shape0 = 2, shape1 = 2,
              cells = [[Finite (11 / 21), Finite (10 / 21)],
                       [Finite (5 / 21), Finite (16 / 21)]]\<rparr>,
           creation_probability = 1, ordered_creator_ids = [0, 1, 0, 1]\<rparr>
   \<and> length [0, 1, 0, 1 :: nat] = 2 * (2 * 1)
   \<and> count_list [0, 1, 0, 1 :: nat] 0 = 2 \<and> count_list [0, 1, 0, 1 :: nat] 1 = 2"
proof -
  have h1: "init_sim_state example_profiles example_args =
     Inr (ChaneyCreators 1 (Finite (1 / 20)) example_profiles 1, zeros 2 0)"
    by code_simp
  have h2: "run_steps (ChaneyCreators 1 (Finite (1 / 20)) example_profiles 1)
        [Generate (\<lambda>i. 0) example_dirichlet,
         Update [[0], [1]]
           \<lparr>shape0 = 2, shape1 = 2, cells = [[Finite 1, Finite 0], [Finite 0, Finite 1]]\<rparr>,
         Generate (\<lambda>i. 0) example_dirichlet] =
      Inr \<lparr>items_per_creator = 1, learning_rate = Finite (1 / 20),
           actual_creator_profiles =
             \<lparr>shape0 = 2, shape1 = 2,
              cells = [[Finite (11 / 21), Finite (10 / 21)],
                       [Finite (5 / 21), Finite (16 / 21)]]\<rparr>,
           creation_probability = 1, ordered_creator_ids = [0, 1, 0, 1]\<rparr>"
    by code_simp
  from driver_selects_every_creator [OF h1 h2] h1 h2 show ?thesis
    by (simp add: ChaneyCreators_def example_profiles_def)
qed

text \<open>
  Claim C2. For every sequence of \<^verbatim>\<open>generate_items\<close> calls and every sequence of
  creation masks, the length of \<^verbatim>\<open>ordered_creator_ids\<close> equals the number of columns
  the calls have returned. Evaluated at a mask that selects the first of two creators
  (creation probability 1/2, variates 3/4 and 1/4): one id is appended and a batch of
  two columns is returned, the second all zeros; \<^verbatim>\<open>update_profiles\<close> on that catalog
  fails its own assertion.
\<close>

theorem ordered_creator_ids_shorter_than_batch:
  "generate_items (ChaneyCreators 1 (Finite (1 / 20)) example_profiles (1 / 2))
       (\<lambda>i. if i = 0 then 3 / 4 else 1 / 4) example_dirichlet =
     ((ChaneyCreators 1 (Finite (1 / 20)) example_profiles (1 / 2))
        \<lparr>ordered_creator_ids := [0]\<rparr>,
      Inr \<lparr>shape0 = 2, shape1 = 2, cells = [[Finite 1, Finite 0], [Finite 0, Finite 0]]\<rparr>)
   \<and> update_profiles
       ((ChaneyCreators 1 (Finite (1 / 20)) example_profiles (1 / 2))
          \<lparr>ordered_creator_ids := [0]\<rparr>)
       [[0]]
       \<lparr>shape0 = 2, shape1 = 2, cells = [[Finite 1, Finite 0], [Finite 0, Finite 0]]\<rparr> =
     Inl AssertionError"
  by code_simp

text \<open>
  Claim C3. Every creator the mask selects contributes exactly \<^verbatim>\<open>items_per_creator\<close>
  item vectors drawn from its scaled profile, returned as a matrix of \<open>num_attrs\<close> rows
  and one column per generated item, for every \<open>items_per_creator \<ge> 1\<close> and every
  number of selected creators. Evaluated at two items per creator and two selected
  creators: the second iteration assigns a draw of two rows to the three-row slice
  \<open>items[1:4]\<close>, which numpy refuses, after the four ids have been appended.
\<close>

theorem generate_items_two_per_creator_raises:
  "generate_items (ChaneyCreators 2 (Finite (1 / 20)) example_profiles 1) us example_dirichlet =
     ((ChaneyCreators 2 (Finite (1 / 20)) example_profiles 1)
        \<lparr>ordered_creator_ids := [0, 0, 1, 1]\<rparr>,
      Inl ValueError)"
  by code_simp

text \<open>
  Claim C7. When the mask selects no creator (in particular when
  \<^verbatim>\<open>creation_probability\<close> is 0), \<^verbatim>\<open>generate_items\<close> returns a batch with zero item
  columns, so the catalog never grows. Evaluated at two creators with probability 0:
  whatever the generator draws, no id is appended and the batch has two columns, all
  zeros.
\<close>

theorem generate_items_empty_mask_returns_columns:
  "generate_items (ChaneyCreators 1 (Finite (1 / 20)) example_profiles 0) us d =
     (ChaneyCreators 1 (Finite (1 / 20)) example_profiles 0,
      Inr \<lparr>shape0 = 2, shape1 = 2, cells = [[Finite 0, Finite 0], [Finite 0, Finite 0]]\<rparr>)"
  by code_simp

subsection \<open>What \<^verbatim>\<open>update_profiles\<close> leaves in the profiles\<close>

lemma nnf_iff: "nnf x \<longleftrightarrow> (\<exists>q. x = Finite q \<and> 0 \<le> q)"
  by (cases x) auto

lemma foldl_fadd_finite:
  "list_all nnf xs \<Longrightarrow> foldl fadd (Finite a) xs = Finite (a + sum_list (map fval xs))"
proof (induction xs arbitrary: a)
  case Nil
  then show ?case by simp
next
  case (Cons x xs)
  then obtain q where "x = Finite q" by (auto simp: nnf_iff)
  with Cons show ?case by (simp add: add.assoc)
qed

lemma fsum_finite: "list_all nnf xs \<Longrightarrow> fsum xs = Finite (sum_list (map fval xs))"
  by (simp add: fsum_def foldl_fadd_finite)

lemma sum_fval_nonneg: "list_all nnf xs \<Longrightarrow> 0 \<le> sum_list (map fval xs)"
  by (induction xs) (auto simp: nnf_iff)

lemma member_le_sum: "list_all nnf xs \<Longrightarrow> x \<in> set xs \<Longrightarrow> fval x \<le> sum_list (map fval xs)"
proof (induction xs)
  case Nil
  then show ?case by simp
next
  case (Cons y ys)
  have y: "0 \<le> fval y" using Cons.prems(1) by (auto simp: nnf_iff)
  have ys: "0 \<le> sum_list (map fval ys)" using Cons.prems(1) by (simp add: sum_fval_nonneg)
  show ?case
  proof (cases "x = y")
    case True
    then show ?thesis using ys by simp
  next
    case False
    then have "fval x \<le> sum_list (map fval ys)" using Cons by simp
    then show ?thesis using y by simp
  qed
qed

lemma map2_fadd_nnf:
  "list_all nnf r \<Longrightarrow> list_all nnf w \<Longrightarrow> list_all nnf (map2 fadd r w)"
proof (induction r arbitrary: w)
  case Nil
  then show ?case by simp
next
  case (Cons x r)
  then show ?case by (cases w) (auto simp: nnf_iff)
qed

lemma map2_fadd_sum:
  "list_all nnf r \<Longrightarrow> list_all nnf w \<Longrightarrow> length r = length w \<Longrightarrow>
   sum_list (map fval (map2 fadd r w)) = sum_list (map fval r) + sum_list (map fval w)"
proof (induction r arbitrary: w)
  case Nil
  then show ?case by simp
next
  case (Cons x r)
  then show ?case by (cases w) (auto simp: nnf_iff)
qed

lemma good_row_add:
  assumes "good_row m r" "length w = m" "list_all nnf w"
  shows "good_row m (map2 fadd r w)"
proof -
  have r: "length r = m" "list_all nnf r" "0 < sum_list (map fval r)"
    using assms(1) by (simp_all add: good_row_def)
  have w: "0 \<le> sum_list (map fval w)" using assms(3) by (rule sum_fval_nonneg)
  have s: "sum_list (map fval (map2 fadd r w)) = sum_list (map fval r) + sum_list (map fval w)"
    using r assms by (intro map2_fadd_sum) simp_all
  have n: "list_all nnf (map2 fadd r w)" using r(2) assms(3) by (rule map2_fadd_nnf)
  have l: "length (map2 fadd r w) = m" using r(1) assms(2) by simp
  show ?thesis unfolding good_row_def using l n s r(3) w by linarith
qed

lemma add_rows_good:
  assumes "list_all (good_row m) rows"
    and "list_all (\<lambda>(i, w). i < length rows \<and> length w = m \<and> list_all nnf w) ups"
  shows "list_all (good_row m) (add_rows rows ups) \<and> length (add_rows rows ups) = length rows"
  using assms
proof (induction ups arbitrary: rows)
  case Nil
  then show ?case by simp
next
  case (Cons u ups)
  obtain i w where u: "u = (i, w)" by (cases u)
  from Cons.prems u have i: "i < length rows" and w: "length w = m" "list_all nnf w"
    and rest: "list_all (\<lambda>(i, w). i < length rows \<and> length w = m \<and> list_all nnf w) ups"
    by simp_all
  have gi: "good_row m (rows ! i)" using Cons.prems(1) i by (simp add: list_all_length)
  have g1: "good_row m (map2 fadd (rows ! i) w)" using good_row_add [OF gi w] .
  have "list_all (good_row m) (rows[i := map2 fadd (rows ! i) w])"
    using Cons.prems(1) g1 unfolding list_all_iff
    by (metis (no_types, lifting) insert_iff set_update_subset_insert subsetD)
  moreover have "list_all (\<lambda>(i, w). i < length (rows[i := map2 fadd (rows ! i) w]) \<and> length w = m \<and> list_all nnf w) ups"
    using rest by simp
  ultimately show ?case using Cons.IH [of "rows[i := map2 fadd (rows ! i) w]"] u by simp
qed


lemma sum_list_scaled:
  fixes s :: rat
  shows "(\<Sum>x\<leftarrow>xs. f x / s) = (\<Sum>x\<leftarrow>xs. f x) / s"
  by (induction xs) (simp_all add: add_divide_distrib)

lemma renormalised_row:
  assumes "good_row m r"
  shows "list_all (\<lambda>x. \<exists>q. x = Finite q \<and> 1 / 10000 \<le> q \<and> q \<le> 1)
           (map (fclip (1 / 10000) 1) (map (\<lambda>x. fdiv x (fsum r)) r))"
    and "\<exists>t. fsum (map (fclip (1 / 10000) 1) (map (\<lambda>x. fdiv x (fsum r)) r)) = Finite t
           \<and> 1 \<le> t \<and> t \<le> 1 + of_nat m / 10000"
    and "length (map (fclip (1 / 10000) 1) (map (\<lambda>x. fdiv x (fsum r)) r)) = m"
proof -
  define s where "s = sum_list (map fval r)"
  define g where "g = (\<lambda>q::rat. min (max (q / s) (1 / 10000)) 1)"
  have len: "length r = m" and nn: "list_all nnf r" and pos: "0 < s"
    using assms by (simp_all add: good_row_def s_def)
  have fs: "fsum r = Finite s" using nn by (simp add: fsum_finite s_def)
  have cell: "fclip (1 / 10000) 1 (fdiv x (fsum r)) = Finite (g (fval x))" if "x \<in> set r" for x
  proof -
    from that nn obtain q where "x = Finite q" by (auto simp: list_all_iff nnf_iff)
    then show ?thesis using pos by (simp add: fs g_def)
  qed
  have row: "map (fclip (1 / 10000) 1) (map (\<lambda>x. fdiv x (fsum r)) r) = map (\<lambda>x. Finite (g (fval x))) r"
    using cell by simp
  have bounds: "fval x / s \<le> g (fval x) \<and> g (fval x) \<le> fval x / s + 1 / 10000
       \<and> 1 / 10000 \<le> g (fval x) \<and> g (fval x) \<le> 1" if "x \<in> set r" for x
  proof -
    have "0 \<le> fval x" using that nn by (auto simp: list_all_iff nnf_iff)
    moreover have "fval x \<le> s" unfolding s_def using nn that by (rule member_le_sum)
    ultimately have "0 \<le> fval x / s" "fval x / s \<le> 1" using pos by simp_all
    then show ?thesis by (simp add: g_def min_def max_def)
  qed
  show "list_all (\<lambda>x. \<exists>q. x = Finite q \<and> 1 / 10000 \<le> q \<and> q \<le> 1)
           (map (fclip (1 / 10000) 1) (map (\<lambda>x. fdiv x (fsum r)) r))"
    unfolding row using bounds by (simp add: list_all_iff)
  show "length (map (fclip (1 / 10000) 1) (map (\<lambda>x. fdiv x (fsum r)) r)) = m"
    using len by simp
  have nn': "list_all nnf (map (\<lambda>x. Finite (g (fval x))) r)"
    using bounds by (auto simp: list_all_iff intro: order_trans [of 0 "1 / 10000"])
  have sum': "fsum (map (\<lambda>x. Finite (g (fval x))) r) = Finite (\<Sum>x\<leftarrow>r. g (fval x))"
    using fsum_finite [OF nn'] by (simp add: comp_def)
  have one: "(\<Sum>x\<leftarrow>r. fval x / s) = 1"
    using pos by (simp add: sum_list_scaled s_def)
  have lower: "(\<Sum>x\<leftarrow>r. fval x / s) \<le> (\<Sum>x\<leftarrow>r. g (fval x))"
    using bounds by (intro sum_list_mono) simp
  have "(\<Sum>x\<leftarrow>r. g (fval x)) \<le> (\<Sum>x\<leftarrow>r. fval x / s + 1 / 10000)"
    using bounds by (intro sum_list_mono) simp
  also have "\<dots> = 1 + of_nat m / 10000"
    using one len by (simp add: sum_list_addf sum_list_triv)
  finally have upper: "(\<Sum>x\<leftarrow>r. g (fval x)) \<le> 1 + of_nat m / 10000" .
  show "\<exists>t. fsum (map (fclip (1 / 10000) 1) (map (\<lambda>x. fdiv x (fsum r)) r)) = Finite t
           \<and> 1 \<le> t \<and> t \<le> 1 + of_nat m / 10000"
    unfolding row sum' using lower upper one by simp
qed

lemma index_all_in_range:
  assumes "list_all (\<lambda>i. - int n \<le> i \<and> i < int n) is"
  shows "\<exists>js. index_all n is = Inr js \<and> length js = length is \<and> list_all (\<lambda>j. j < n) js"
  using assms
proof (induction "is")
  case Nil
  then show ?case by simp
next
  case (Cons i "is")
  then obtain js where js: "index_all n is = Inr js" "length js = length is" "list_all (\<lambda>j. j < n) js"
    by auto
  from Cons.prems have "- int n \<le> i" "i < int n" by simp_all
  then have "\<exists>j. py_index n i = Inr j \<and> j < n"
    by (cases "i < 0") (auto simp: py_index_def Let_def)
  then obtain j where "py_index n i = Inr j" "j < n" by blast
  with js show ?case by simp
qed


lemma updates_ok:
  assumes "list_all (\<lambda>i. i < n) idxs" "list_all (\<lambda>w. length w = m \<and> list_all nnf w) W"
  shows "list_all (\<lambda>(i, w). i < n \<and> length w = m \<and> list_all nnf w)
           (zip idxs (map (broadcast_row m) W))"
  using assms
proof (induction idxs arbitrary: W)
  case Nil
  then show ?case by simp
next
  case (Cons i idxs)
  then show ?case by (cases W) (auto simp: broadcast_row_def)
qed

lemma weighted_items_ok:
  assumes "well_shaped items" "list_all (list_all nnf) (cells items)" "nnf lr"
    and "list_all (\<lambda>j. j < shape1 items) js"
  shows "list_all (\<lambda>w. length w = shape0 items \<and> list_all nnf w)
           (map (\<lambda>j. map (\<lambda>r. fmul lr (r ! j)) (cells items)) js)"
proof -
  from assms(3) obtain l where l: "lr = Finite l" "0 \<le> l" by (auto simp: nnf_iff)
  have cell: "nnf (fmul lr (r ! j))" if "r \<in> set (cells items)" "j < shape1 items" for r j
  proof -
    from that assms(1) have "j < length r" by (simp add: well_shaped_def list_all_iff)
    moreover from that assms(2) have "list_all nnf r" by (simp add: list_all_iff)
    ultimately have "nnf (r ! j)" by (simp add: list_all_length)
    then obtain q where "r ! j = Finite q" "0 \<le> q" by (auto simp: nnf_iff)
    with l show ?thesis by simp
  qed
  have "length (cells items) = shape0 items" using assms(1) by (simp add: well_shaped_def)
  then show ?thesis using cell assms(4) by (simp add: list_all_iff)
qed

lemma accumulate_ok:
  assumes "profiles_ok (actual_creator_profiles c)"
    and "items_ok items"
    and "shape0 items = shape1 (actual_creator_profiles c)"
    and "nnf (learning_rate c)"
    and "length (ordered_creator_ids c) = shape1 items"
    and "list_all (\<lambda>j. j < shape0 (actual_creator_profiles c)) (ordered_creator_ids c)"
    and "list_all (\<lambda>i. - int (shape1 items) \<le> i \<and> i < int (shape1 items)) (concat interactions)"
  shows "\<exists>Q. accumulate c interactions items = Inr Q \<and> profiles_ok Q
           \<and> shape0 Q = shape0 (actual_creator_profiles c)
           \<and> shape1 Q = shape1 (actual_creator_profiles c)"
proof -
  define P where "P = actual_creator_profiles c"
  define ids where "ids = ordered_creator_ids c"
  have P: "length (cells P) = shape0 P" "list_all (good_row (shape1 P)) (cells P)"
    using assms(1) by (simp_all add: profiles_ok_def P_def)
  from index_all_in_range [of "shape1 items" "concat interactions"] assms(7)
  obtain js where js: "index_all (shape1 items) (concat interactions) = Inr js"
    "list_all (\<lambda>j. j < shape1 items) js" by blast
  define idxs where "idxs = map (\<lambda>j. ids ! j) js"
  define W where "W = map (\<lambda>j. map (\<lambda>r. fmul (learning_rate c) (r ! j)) (cells items)) js"
  have idxs: "list_all (\<lambda>i. i < shape0 P) idxs"
    using js(2) assms(5,6) by (simp add: idxs_def ids_def P_def list_all_length)
  have W: "list_all (\<lambda>w. length w = shape1 P \<and> list_all nnf w) W"
    using weighted_items_ok [of items "learning_rate c" js] assms(2,3,4) js(2)
    by (simp add: W_def items_ok_def P_def)
  have ups: "list_all (\<lambda>(i, w). i < length (cells P) \<and> length w = shape1 P \<and> list_all nnf w)
           (zip idxs (map (broadcast_row (shape1 P)) W))"
    using updates_ok [OF idxs W] P(1) by simp
  define Q where "Q = P\<lparr>cells := add_rows (cells P) (zip idxs (map (broadcast_row (shape1 P)) W))\<rparr>"
  have acc: "accumulate c interactions items = Inr Q"
    using js(1) idxs assms(3,5)
    by (simp add: accumulate_def add_at_def Let_def Q_def idxs_def W_def ids_def P_def)
  from add_rows_good [OF P(2) ups] P(1)
  have "profiles_ok Q" by (simp add: profiles_ok_def Q_def)
  then show ?thesis using acc by (auto simp: Q_def P_def)
qed

lemma renormalised_row_good:
  assumes "good_row m r"
  shows "good_row m (map (fclip (1 / 10000) 1) (map (\<lambda>x. fdiv x (fsum r)) r))"
proof -
  let ?r' = "map (fclip (1 / 10000) 1) (map (\<lambda>x. fdiv x (fsum r)) r)"
  have a: "list_all (\<lambda>x. \<exists>q. x = Finite q \<and> 1 / 10000 \<le> q \<and> q \<le> 1) ?r'"
    by (rule renormalised_row(1) [OF assms])
  have nn: "list_all nnf ?r'"
  proof -
    have "nnf x" if "x \<in> set ?r'" for x
    proof -
      from a that obtain q where "x = Finite q" "1 / 10000 \<le> q"
        unfolding list_all_iff by blast
      then show ?thesis by simp
    qed
    then show ?thesis unfolding list_all_iff by blast
  qed
  from renormalised_row(2) [OF assms] obtain t where t: "fsum ?r' = Finite t" "1 \<le> t" by blast
  from fsum_finite [OF nn] t have "0 < sum_list (map fval ?r')" by simp
  moreover have "length ?r' = m" by (rule renormalised_row(3) [OF assms])
  ultimately show ?thesis using nn unfolding good_row_def by blast
qed

lemma update_profiles_exact_bounds:
  assumes "profiles_ok (actual_creator_profiles c)"
    and "items_ok items"
    and "shape0 items = shape1 (actual_creator_profiles c)"
    and "nnf (learning_rate c)"
    and "length (ordered_creator_ids c) = shape1 items"
    and "list_all (\<lambda>j. j < shape0 (actual_creator_profiles c)) (ordered_creator_ids c)"
    and "list_all (\<lambda>i. - int (shape1 items) \<le> i \<and> i < int (shape1 items)) (concat interactions)"
  shows "\<exists>c'. update_profiles c interactions items = Inr c'
      \<and> profiles_ok (actual_creator_profiles c')
      \<and> shape0 (actual_creator_profiles c') = shape0 (actual_creator_profiles c)
      \<and> shape1 (actual_creator_profiles c') = shape1 (actual_creator_profiles c)
      \<and> (\<forall>r \<in> set (cells (actual_creator_profiles c')).
            (\<forall>x \<in> set r. \<exists>q. x = Finite q \<and> 1 / 10000 \<le> q \<and> q \<le> 1)
            \<and> (\<exists>t. fsum r = Finite t \<and> 1 \<le> t
                  \<and> t \<le> 1 + of_nat (shape1 (actual_creator_profiles c)) / 10000))"
proof -
  from accumulate_ok [OF assms] obtain Q where Q: "accumulate c interactions items = Inr Q"
    "profiles_ok Q" "shape0 Q = shape0 (actual_creator_profiles c)"
    "shape1 Q = shape1 (actual_creator_profiles c)" by blast
  define c' where "c' = c\<lparr>actual_creator_profiles :=
                   Q\<lparr>cells := clip_rows (normalize_rows (cells Q))\<rparr>\<rparr>"
  have u: "update_profiles c interactions items = Inr c'"
    by (simp add: update_profiles_def Q(1) c'_def)
  have rows: "cells (actual_creator_profiles c') =
      map (\<lambda>r. map (fclip (1 / 10000) 1) (map (\<lambda>x. fdiv x (fsum r)) r)) (cells Q)"
    by (simp add: c'_def clip_rows_def normalize_rows_def)
  have sh: "shape0 (actual_creator_profiles c') = shape0 Q"
    "shape1 (actual_creator_profiles c') = shape1 Q"
    by (simp_all add: c'_def)
  have good: "good_row (shape1 Q) r" if "r \<in> set (cells Q)" for r
    using Q(2) that by (simp add: profiles_ok_def list_all_iff)
  have lenQ: "length (cells Q) = shape0 Q" using Q(2) by (simp add: profiles_ok_def)
  have per: "good_row (shape1 Q) r'
                \<and> (\<forall>x \<in> set r'. \<exists>q. x = Finite q \<and> 1 / 10000 \<le> q \<and> q \<le> 1)
                \<and> (\<exists>t. fsum r' = Finite t \<and> 1 \<le> t
                           \<and> t \<le> 1 + of_nat (shape1 (actual_creator_profiles c)) / 10000)"
    if "r' \<in> set (cells (actual_creator_profiles c'))" for r'
  proof -
    from that obtain r where r: "r \<in> set (cells Q)"
      "r' = map (fclip (1 / 10000) 1) (map (\<lambda>x. fdiv x (fsum r)) r)"
      unfolding rows by auto
    have g: "good_row (shape1 Q) r'"
      unfolding r(2) by (rule renormalised_row_good [OF good [OF r(1)]])
    have "list_all (\<lambda>x. \<exists>q. x = Finite q \<and> 1 / 10000 \<le> q \<and> q \<le> 1) r'"
      unfolding r(2) by (rule renormalised_row(1) [OF good [OF r(1)]])
    then have a: "\<forall>x \<in> set r'. \<exists>q. x = Finite q \<and> 1 / 10000 \<le> q \<and> q \<le> 1"
      by (simp only: list_all_iff)
    have b: "\<exists>t. fsum r' = Finite t \<and> 1 \<le> t
               \<and> t \<le> 1 + of_nat (shape1 (actual_creator_profiles c)) / 10000"
      using renormalised_row(2) [OF good [OF r(1)]] unfolding r(2) Q(4) .
    from g a b show ?thesis by blast
  qed
  have ok: "profiles_ok (actual_creator_profiles c')"
  proof -
    have "length (cells (actual_creator_profiles c')) = shape0 (actual_creator_profiles c')"
      using lenQ by (simp add: rows sh)
    moreover have "\<forall>r'\<in>set (cells (actual_creator_profiles c')).
        good_row (shape1 (actual_creator_profiles c')) r'"
      using per sh(2) by simp
    ultimately show ?thesis unfolding profiles_ok_def list_all_iff by blast
  qed
  from u ok sh Q(3,4) per show ?thesis by auto
qed

lemma in_unit_iff: "in_unit x \<longleftrightarrow> (\<exists>q. x = Finite q \<and> 0 \<le> q \<and> q \<le> 1)"
  by (cases x) auto

lemma in_unit_nnf: "in_unit x \<Longrightarrow> nnf x"
  by (cases x) auto

lemma in_unit_rows_nnf:
  assumes "list_all (list_all in_unit) rows"
  shows "list_all (list_all nnf) rows"
proof -
  have "\<forall>r \<in> set rows. \<forall>x \<in> set r. nnf x"
    using assms in_unit_nnf unfolding list_all_iff by blast
  then show ?thesis unfolding list_all_iff .
qed

lemma unit_items_ok: "unit_items items \<Longrightarrow> items_ok items"
  by (simp add: unit_items_def items_ok_def in_unit_rows_nnf)

text \<open>
  Claim C1, as amended. For every call of \<^verbatim>\<open>update_profiles\<close> on the inputs the
  simulation produces (profile rows with entries in \<open>[0, 1]\<close> and a positive sum; a
  rectangular catalog with entries in \<open>[0, 1]\<close>, as long as \<^verbatim>\<open>ordered_creator_ids\<close>; a
  learning rate in \<open>[0, 1]\<close>; ids and interactions in range; at most \<open>1e5\<close> attributes
  and \<open>1e9\<close> interactions) the call returns, every coordinate of every row lies in
  \<open>[1e-4, 1]\<close>, and every row sums, within a tolerance of \<open>1e-9\<close>, to at least 1 and at
  most \<open>1 + num_attrs * 1e-4\<close>: the clamp runs after the renormalisation and nothing
  renormalises again. The new profiles are inputs of the same kind for the next call.
  The bounds on the sizes and the tolerance are for doubles: the sum of a row of
  \<open>num_attrs \<le> 1e5\<close> doubles is within a relative \<open>1e5 * 2^-53\<close> of the exact one.
\<close>

theorem update_profiles_clamped:
  assumes "unit_profiles (actual_creator_profiles c)"
    and "unit_items items"
    and "shape0 items = shape1 (actual_creator_profiles c)"
    and "in_unit (learning_rate c)"
    and "length (ordered_creator_ids c) = shape1 items"
    and "list_all (\<lambda>j. j < shape0 (actual_creator_profiles c)) (ordered_creator_ids c)"
    and "list_all (\<lambda>i. - int (shape1 items) \<le> i \<and> i < int (shape1 items)) (concat interactions)"
    and "shape1 (actual_creator_profiles c) \<le> 100000"
    and "length (concat interactions) \<le> 1000000000"
  shows "\<exists>c'. update_profiles c interactions items = Inr c'
      \<and> unit_profiles (actual_creator_profiles c')
      \<and> shape0 (actual_creator_profiles c') = shape0 (actual_creator_profiles c)
      \<and> shape1 (actual_creator_profiles c') = shape1 (actual_creator_profiles c)
      \<and> list_all (\<lambda>r. list_all (\<lambda>x. \<exists>q. x = Finite q \<and> 1 / 10000 \<le> q \<and> q \<le> 1) r
                     \<and> (\<exists>t. fsum r = Finite t \<and> 1 - 1 / 1000000000 \<le> t
                           \<and> t \<le> 1 + of_nat (shape1 (actual_creator_profiles c)) / 10000
                                   + 1 / 1000000000))
          (cells (actual_creator_profiles c'))"
proof -
  have p: "profiles_ok (actual_creator_profiles c)"
    using assms(1) by (simp add: unit_profiles_def)
  have i: "items_ok items" using assms(2) by (rule unit_items_ok)
  have l: "nnf (learning_rate c)" using assms(4) by (rule in_unit_nnf)
  from update_profiles_exact_bounds [OF p i assms(3) l assms(5,6,7)]
  obtain c' where c': "update_profiles c interactions items = Inr c'"
    "profiles_ok (actual_creator_profiles c')"
    "shape0 (actual_creator_profiles c') = shape0 (actual_creator_profiles c)"
    "shape1 (actual_creator_profiles c') = shape1 (actual_creator_profiles c)"
    and rows: "\<forall>r \<in> set (cells (actual_creator_profiles c')).
            (\<forall>x \<in> set r. \<exists>q. x = Finite q \<and> 1 / 10000 \<le> q \<and> q \<le> 1)
            \<and> (\<exists>t. fsum r = Finite t \<and> 1 \<le> t
                  \<and> t \<le> 1 + of_nat (shape1 (actual_creator_profiles c)) / 10000)"
    by blast
  have unit: "\<forall>r \<in> set (cells (actual_creator_profiles c')). \<forall>x \<in> set r. in_unit x"
  proof (intro ballI)
    fix r x assume "r \<in> set (cells (actual_creator_profiles c'))" "x \<in> set r"
    with rows obtain q where "x = Finite q" "1 / 10000 \<le> q" "q \<le> 1" by blast
    then show "in_unit x" by simp
  qed
  have up: "unit_profiles (actual_creator_profiles c')"
    unfolding unit_profiles_def list_all_iff using c'(2) unit by blast
  have "\<forall>r \<in> set (cells (actual_creator_profiles c')).
          list_all (\<lambda>x. \<exists>q. x = Finite q \<and> 1 / 10000 \<le> q \<and> q \<le> 1) r
          \<and> (\<exists>t. fsum r = Finite t \<and> 1 - 1 / 1000000000 \<le> t
                \<and> t \<le> 1 + of_nat (shape1 (actual_creator_profiles c)) / 10000
                        + 1 / 1000000000)"
  proof
    fix r assume r: "r \<in> set (cells (actual_creator_profiles c'))"
    with rows obtain t where t: "fsum r = Finite t" "1 \<le> t"
      "t \<le> 1 + of_nat (shape1 (actual_creator_profiles c)) / 10000" by blast
    have "1 - 1 / 1000000000 \<le> t" using t(2) by simp
    moreover have "t \<le> 1 + of_nat (shape1 (actual_creator_profiles c)) / 10000 + 1 / 1000000000"
      using t(3) by simp
    moreover have "list_all (\<lambda>x. \<exists>q. x = Finite q \<and> 1 / 10000 \<le> q \<and> q \<le> 1) r"
      using rows r by (simp only: list_all_iff) blast
    ultimately show "list_all (\<lambda>x. \<exists>q. x = Finite q \<and> 1 / 10000 \<le> q \<and> q \<le> 1) r
          \<and> (\<exists>t. fsum r = Finite t \<and> 1 - 1 / 1000000000 \<le> t
                \<and> t \<le> 1 + of_nat (shape1 (actual_creator_profiles c)) / 10000
                        + 1 / 1000000000)"
      using t(1) by blast
  qed
  then have bounds: "list_all (\<lambda>r. list_all (\<lambda>x. \<exists>q. x = Finite q \<and> 1 / 10000 \<le> q \<and> q \<le> 1) r
                     \<and> (\<exists>t. fsum r = Finite t \<and> 1 - 1 / 1000000000 \<le> t
                           \<and> t \<le> 1 + of_nat (shape1 (actual_creator_profiles c)) / 10000
                                   + 1 / 1000000000))
          (cells (actual_creator_profiles c'))"
    by (simp only: list_all_iff)
  from c' up bounds show ?thesis by blast
qed

text \<open>
  The theorem at the creator above: its hypotheses hold there, and so does its
  conclusion.
\<close>

theorem update_profiles_clamped_witness:
  "unit_profiles (actual_creator_profiles drifted_creators)
   \<and> unit_items drifted_items
   \<and> shape0 drifted_items = shape1 (actual_creator_profiles drifted_creators)
   \<and> in_unit (learning_rate drifted_creators)
   \<and> length (ordered_creator_ids drifted_creators) = shape1 drifted_items
   \<and> list_all (\<lambda>j. j < shape0 (actual_creator_profiles drifted_creators))
        (ordered_creator_ids drifted_creators)
   \<and> list_all (\<lambda>i. - int (shape1 drifted_items) \<le> i \<and> i < int (shape1 drifted_items))
        (concat [[0]])
   \<and> shape1 (actual_creator_profiles drifted_creators) \<le> 100000
   \<and> length (concat [[0 :: int]]) \<le> 1000000000
   \<and> (\<exists>c'. update_profiles drifted_creators [[0]] drifted_items = Inr c'
      \<and> unit_profiles (actual_creator_profiles c')
      \<and> list_all (\<lambda>r. list_all (\<lambda>x. \<exists>q. x = Finite q \<and> 1 / 10000 \<le> q \<and> q \<le> 1) r
                     \<and> (\<exists>t. fsum r = Finite t \<and> 1 - 1 / 1000000000 \<le> t
                           \<and> t \<le> 1 + 3 / 10000 + 1 / 1000000000))
          (cells (actual_creator_profiles c')))"
proof -
  have h1: "unit_profiles (actual_creator_profiles drifted_creators)" by code_simp
  have h2: "unit_items drifted_items" by code_simp
  have h3: "shape0 drifted_items = shape1 (actual_creator_profiles drifted_creators)" by code_simp
  have h4: "in_unit (learning_rate drifted_creators)" by code_simp
  have h5: "length (ordered_creator_ids drifted_creators) = shape1 drifted_items" by code_simp
  have h6: "list_all (\<lambda>j. j < shape0 (actual_creator_profiles drifted_creators))
        (ordered_creator_ids drifted_creators)" by code_simp
  have h7: "list_all (\<lambda>i. - int (shape1 drifted_items) \<le> i \<and> i < int (shape1 drifted_items))
        (concat [[0]])" by code_simp
  have h8: "shape1 (actual_creator_profiles drifted_creators) \<le> 100000"
    by (simp add: drifted_creators_def)
  have h9: "length (concat [[0 :: int]]) \<le> 1000000000" by simp
  have s: "of_nat (shape1 (actual_creator_profiles drifted_creators)) = (3 :: rat)"
    by (simp add: drifted_creators_def)
  from update_profiles_clamped [OF h1 h2 h3 h4 h5 h6 h7 h8 h9]
  have "\<exists>c'. update_profiles drifted_creators [[0]] drifted_items = Inr c'
      \<and> unit_profiles (actual_creator_profiles c')
      \<and> list_all (\<lambda>r. list_all (\<lambda>x. \<exists>q. x = Finite q \<and> 1 / 10000 \<le> q \<and> q \<le> 1) r
                     \<and> (\<exists>t. fsum r = Finite t \<and> 1 - 1 / 1000000000 \<le> t
                           \<and> t \<le> 1 + 3 / 10000 + 1 / 1000000000))
          (cells (actual_creator_profiles c'))"
    unfolding s by blast
  with h1 h2 h3 h4 h5 h6 h7 h8 h9 show ?thesis by blast
qed

text \<open>
  Claim C1 as stated fails: the profile \<open>(0.9998, 0.0001, 0.0001)\<close> sums to 1; after
  one interaction with the item \<open>(1, 0, 0)\<close> at learning rate 1 the row is
  \<open>(0.9999, 0.0001, 0.0001)\<close>, which sums to \<open>1.0001\<close>, further from 1 than \<open>1e-5\<close>.
\<close>

theorem update_profiles_row_sum_counterexample:
  "profiles_ok (actual_creator_profiles drifted_creators)
   \<and> fsum (cells (actual_creator_profiles drifted_creators) ! 0) = Finite 1
   \<and> update_profiles drifted_creators [[0]] drifted_items =
       Inr (drifted_creators\<lparr>actual_creator_profiles :=
              \<lparr>shape0 = 1, shape1 = 3,
               cells = [[Finite (9999 / 10000), Finite (1 / 10000), Finite (1 / 10000)]]\<rparr>\<rparr>)
   \<and> fsum [Finite (9999 / 10000), Finite (1 / 10000), Finite (1 / 10000)] = Finite (10001 / 10000)
   \<and> \<not> \<bar>10001 / 10000 - 1\<bar> \<le> (1 / 100000 :: rat)"
  by code_simp

subsection \<open>A zero row sum at the renormalisation step\<close>

lemma index_all_in_range_plain:
  assumes "list_all (\<lambda>i. - int n \<le> i \<and> i < int n) is"
  shows "\<exists>js. index_all n is = Inr js \<and> list_all (\<lambda>j. j < n) js"
  using index_all_in_range [OF assms] by blast

lemma add_rows_nnf:
  assumes "list_all (list_all nnf) rows"
    and "list_all (\<lambda>(i, w). list_all nnf w) ups"
  shows "list_all (list_all nnf) (add_rows rows ups) \<and> length (add_rows rows ups) = length rows"
  using assms
proof (induction ups arbitrary: rows)
  case Nil
  then show ?case by simp
next
  case (Cons u ups)
  obtain i w where u: "u = (i, w)" by (cases u)
  from Cons.prems u have w: "list_all nnf w" and rest: "list_all (\<lambda>(i, w). list_all nnf w) ups"
    by simp_all
  have "list_all (list_all nnf) (rows[i := map2 fadd (rows ! i) w])"
  proof (cases "i < length rows")
    case True
    then have "list_all nnf (rows ! i)" using Cons.prems(1) by (simp add: list_all_length)
    then have "list_all nnf (map2 fadd (rows ! i) w)" using w by (rule map2_fadd_nnf)
    then show ?thesis
      using Cons.prems(1) unfolding list_all_iff
      by (metis (no_types, lifting) insert_iff set_update_subset_insert subsetD)
  next
    case False
    then have "rows[i := map2 fadd (rows ! i) w] = rows" by (intro list_update_beyond) simp
    then show ?thesis using Cons.prems(1) by simp
  qed
  with rest show ?case using Cons.IH [of "rows[i := map2 fadd (rows ! i) w]"] u by simp
qed

lemma broadcast_nnf:
  assumes "list_all nnf w" "length w = m \<or> length w = 1"
  shows "list_all nnf (broadcast_row m w)"
proof (cases "length w = m")
  case True
  then show ?thesis using assms(1) by (simp add: broadcast_row_def)
next
  case False
  then have "length w = 1" using assms(2) by simp
  then obtain x where "w = [x]" by (cases w) auto
  then show ?thesis using assms(1) by (simp add: broadcast_row_def list_all_iff)
qed

lemma nnf_updates:
  assumes "list_all (\<lambda>w. (length w = m \<or> length w = 1) \<and> list_all nnf w) W"
  shows "list_all (\<lambda>(i, w). list_all nnf w) (zip idxs (map (broadcast_row m) W))"
  using assms
proof (induction idxs arbitrary: W)
  case Nil
  then show ?case by simp
next
  case (Cons i idxs)
  then show ?case by (cases W) (auto simp: broadcast_nnf)
qed

lemma zero_sum_row:
  assumes "list_all nnf r" "fsum r = Finite 0"
  shows "map (fclip (1 / 10000) 1) (map (\<lambda>x. fdiv x (fsum r)) r) = replicate (length r) NaN"
proof -
  have s: "sum_list (map fval r) = 0" using fsum_finite [OF assms(1)] assms(2) by simp
  have "x = Finite 0" if "x \<in> set r" for x
  proof -
    from that assms(1) obtain q where q: "x = Finite q" "0 \<le> q"
      by (auto simp: list_all_iff nnf_iff)
    have "fval x \<le> 0" using member_le_sum [OF assms(1) that] s by simp
    with q show ?thesis by simp
  qed
  then have z: "x = Finite 0" if "x \<in> set r" for x using that by blast
  have "fclip (1 / 10000) 1 (fdiv x (fsum r)) = NaN" if "x \<in> set r" for x
  proof -
    have "fdiv x (fsum r) = fdiv (Finite 0) (Finite 0)"
      by (simp only: z [OF that] assms(2))
    then show ?thesis by simp
  qed
  then have "map (fclip (1 / 10000) 1) (map (\<lambda>x. fdiv x (fsum r)) r) = map (\<lambda>x. NaN) r"
    by simp
  then show ?thesis by (simp add: map_replicate_const)
qed

lemma accumulate_nnf:
  assumes "accumulate c interactions items = Inr Q"
    and "list_all (list_all nnf) (cells (actual_creator_profiles c))"
    and "items_ok items" and "nnf (learning_rate c)"
    and "list_all (\<lambda>i. - int (shape1 items) \<le> i \<and> i < int (shape1 items)) (concat interactions)"
    and "length (ordered_creator_ids c) = shape1 items"
  shows "list_all (list_all nnf) (cells Q)"
proof -
  from index_all_in_range_plain [OF assms(5)]
  obtain js where js: "index_all (shape1 items) (concat interactions) = Inr js"
    "list_all (\<lambda>j. j < shape1 items) js" by blast
  define P where "P = actual_creator_profiles c"
  define W where "W = map (\<lambda>j. map (\<lambda>r. fmul (learning_rate c) (r ! j)) (cells items)) js"
  define idxs where "idxs = map (\<lambda>j. ordered_creator_ids c ! j) js"
  have w: "shape0 items = shape1 P \<or> shape0 items = 1"
    and Q: "Q = P\<lparr>cells := add_rows (cells P) (zip idxs (map (broadcast_row (shape1 P)) W))\<rparr>"
    using assms(1,6) js(1)
    by (auto simp: accumulate_def add_at_def Let_def P_def W_def idxs_def split: if_splits)
  have "list_all (\<lambda>w. length w = shape0 items \<and> list_all nnf w) W"
    using weighted_items_ok [of items "learning_rate c" js] assms(3,4) js(2)
    by (simp add: W_def items_ok_def)
  then have "list_all (\<lambda>w. (length w = shape1 P \<or> length w = 1) \<and> list_all nnf w) W"
    using w unfolding list_all_iff by auto
  then have "list_all (\<lambda>(i, w). list_all nnf w) (zip idxs (map (broadcast_row (shape1 P)) W))"
    by (rule nnf_updates)
  with add_rows_nnf [of "cells P"] assms(2) show ?thesis by (simp add: Q P_def)
qed

text \<open>
  Claim C6, as amended. A zero row sum at the renormalisation step does not make
  \<^verbatim>\<open>update_profiles\<close> fail: the division is not guarded. With the length assertion
  true, the interactions and the creator ids in range and item vectors of the
  profiles' width (or of width 1), the call returns new profiles of the old shape
  whatever the row sums are. When the profiles, the catalog and the learning rate are
  finite and non-negative, every row whose sum is zero at that step (\<open>Q\<close> is the array
  at that step; only an all-zero row can have it) is returned with \<open>nan\<close> in every
  coordinate.
\<close>

theorem update_profiles_divides_unguarded:
  assumes "length (ordered_creator_ids c) = shape1 items"
    and "list_all (\<lambda>i. - int (shape1 items) \<le> i \<and> i < int (shape1 items)) (concat interactions)"
    and "list_all (\<lambda>j. j < shape0 (actual_creator_profiles c)) (ordered_creator_ids c)"
    and "shape0 items = shape1 (actual_creator_profiles c) \<or> shape0 items = 1"
  shows "\<exists>Q c'. accumulate c interactions items = Inr Q
      \<and> update_profiles c interactions items = Inr c'
      \<and> shape0 (actual_creator_profiles c') = shape0 (actual_creator_profiles c)
      \<and> shape1 (actual_creator_profiles c') = shape1 (actual_creator_profiles c)
      \<and> length (cells (actual_creator_profiles c')) = length (cells Q)
      \<and> (list_all (list_all nnf) (cells (actual_creator_profiles c)) \<and> items_ok items
           \<and> nnf (learning_rate c)
         \<longrightarrow> (\<forall>i < length (cells Q). fsum (cells Q ! i) = Finite 0 \<longrightarrow>
                cells (actual_creator_profiles c') ! i = replicate (length (cells Q ! i)) NaN))"
proof -
  from index_all_in_range_plain [OF assms(2)]
  obtain js where js: "index_all (shape1 items) (concat interactions) = Inr js"
    "list_all (\<lambda>j. j < shape1 items) js" by blast
  have idxs: "list_all (\<lambda>i. i < shape0 (actual_creator_profiles c))
                (map (\<lambda>j. ordered_creator_ids c ! j) js)"
    using js(2) assms(1,3) by (simp add: list_all_length)
  obtain Q where Q: "accumulate c interactions items = Inr Q"
    using js(1) idxs assms(1,4) by (auto simp: accumulate_def add_at_def Let_def)
  define c' where "c' = c\<lparr>actual_creator_profiles := Q\<lparr>cells := clip_rows (normalize_rows (cells Q))\<rparr>\<rparr>"
  have u: "update_profiles c interactions items = Inr c'"
    using Q by (simp add: update_profiles_def c'_def)
  have sh: "shape0 (actual_creator_profiles c') = shape0 (actual_creator_profiles c)"
    "shape1 (actual_creator_profiles c') = shape1 (actual_creator_profiles c)"
    using update_profiles_frame [OF u] by simp_all
  have rows: "cells (actual_creator_profiles c') =
      map (\<lambda>r. map (fclip (1 / 10000) 1) (map (\<lambda>x. fdiv x (fsum r)) r)) (cells Q)"
    by (simp add: c'_def clip_rows_def normalize_rows_def)
  have len: "length (cells (actual_creator_profiles c')) = length (cells Q)"
    by (simp add: rows)
  have z: "cells (actual_creator_profiles c') ! i = replicate (length (cells Q ! i)) NaN"
    if h: "list_all (list_all nnf) (cells (actual_creator_profiles c)) \<and> items_ok items
           \<and> nnf (learning_rate c)"
      and i: "i < length (cells Q)" and f: "fsum (cells Q ! i) = Finite 0" for i
  proof -
    have "list_all (list_all nnf) (cells Q)"
      using accumulate_nnf [OF Q _ _ _ assms(2,1)] h by blast
    then have "list_all nnf (cells Q ! i)" using i by (simp add: list_all_length)
    from zero_sum_row [OF this f] show ?thesis using i by (simp add: rows)
  qed
  from Q u sh len z show ?thesis by blast
qed

text \<open>
  The theorem at two creators, the first with an all-zero row, after one interaction
  with the second creator's item: the first row is returned as \<open>(nan, nan)\<close>.
\<close>

theorem update_profiles_divides_unguarded_witness:
  "length (ordered_creator_ids idle_creators) = shape1 idle_items
   \<and> list_all (\<lambda>i. - int (shape1 idle_items) \<le> i \<and> i < int (shape1 idle_items)) (concat [[0]])
   \<and> list_all (\<lambda>j. j < shape0 (actual_creator_profiles idle_creators))
        (ordered_creator_ids idle_creators)
   \<and> shape0 idle_items = shape1 (actual_creator_profiles idle_creators)
   \<and> list_all (list_all nnf) (cells (actual_creator_profiles idle_creators))
   \<and> items_ok idle_items \<and> nnf (learning_rate idle_creators)
   \<and> accumulate idle_creators [[0]] idle_items =
       Inr \<lparr>shape0 = 2, shape1 = 2,
            cells = [[Finite 0, Finite 0], [Finite (11 / 20), Finite (1 / 2)]]\<rparr>
   \<and> fsum [Finite 0, Finite 0] = Finite 0
   \<and> (\<exists>c'. update_profiles idle_creators [[0]] idle_items = Inr c'
         \<and> shape0 (actual_creator_profiles c') = 2 \<and> shape1 (actual_creator_profiles c') = 2
         \<and> length (cells (actual_creator_profiles c')) = 2
         \<and> cells (actual_creator_profiles c') ! 0 = [NaN, NaN])"
proof -
  have h1: "length (ordered_creator_ids idle_creators) = shape1 idle_items" by code_simp
  have h2: "list_all (\<lambda>i. - int (shape1 idle_items) \<le> i \<and> i < int (shape1 idle_items))
              (concat [[0]])" by code_simp
  have h3: "list_all (\<lambda>j. j < shape0 (actual_creator_profiles idle_creators))
        (ordered_creator_ids idle_creators)" by code_simp
  have h4: "shape0 idle_items = shape1 (actual_creator_profiles idle_creators)" by code_simp
  have h5: "list_all (list_all nnf) (cells (actual_creator_profiles idle_creators))" by code_simp
  have h6: "items_ok idle_items" by code_simp
  have h7: "nnf (learning_rate idle_creators)" by code_simp
  have a: "accumulate idle_creators [[0]] idle_items =
       Inr \<lparr>shape0 = 2, shape1 = 2,
            cells = [[Finite 0, Finite 0], [Finite (11 / 20), Finite (1 / 2)]]\<rparr>" by code_simp
  have f: "fsum [Finite 0, Finite 0] = Finite 0" by code_simp
  have s: "shape0 (actual_creator_profiles idle_creators) = 2"
    "shape1 (actual_creator_profiles idle_creators) = 2"
    by (simp_all add: idle_creators_def)
  from update_profiles_divides_unguarded [OF h1 h2 h3 disjI1 [OF h4]]
  obtain Q c' where Q: "accumulate idle_creators [[0]] idle_items = Inr Q"
    "update_profiles idle_creators [[0]] idle_items = Inr c'"
    "shape0 (actual_creator_profiles c') = shape0 (actual_creator_profiles idle_creators)"
    "shape1 (actual_creator_profiles c') = shape1 (actual_creator_profiles idle_creators)"
    "length (cells (actual_creator_profiles c')) = length (cells Q)"
    "list_all (list_all nnf) (cells (actual_creator_profiles idle_creators)) \<and> items_ok idle_items
           \<and> nnf (learning_rate idle_creators)
         \<longrightarrow> (\<forall>i < length (cells Q). fsum (cells Q ! i) = Finite 0 \<longrightarrow>
                cells (actual_creator_profiles c') ! i = replicate (length (cells Q ! i)) NaN)"
    by blast
  from Q(1) a have q: "Q = \<lparr>shape0 = 2, shape1 = 2,
            cells = [[Finite 0, Finite 0], [Finite (11 / 20), Finite (1 / 2)]]\<rparr>" by simp
  have z: "fsum (cells Q ! 0) = Finite 0" using f by (simp add: q)
  have "cells (actual_creator_profiles c') ! 0 = replicate (length (cells Q ! 0)) NaN"
    using Q(6) h5 h6 h7 z by (simp add: q)
  then have r: "cells (actual_creator_profiles c') ! 0 = [NaN, NaN]"
    by (simp add: q eval_nat_numeral)
  have l: "length (cells (actual_creator_profiles c')) = 2" using Q(5) by (simp add: q)
  from h1 h2 h3 h4 h5 h6 h7 a f Q(2) Q(3,4) s l r show ?thesis by auto
qed

text \<open>
  Claim C6 as stated fails: the all-zero row has sum zero at the renormalisation step,
  and the call returns, with the row turned into \<open>(nan, nan)\<close>.
\<close>

theorem zero_row_sum_counterexample:
  "accumulate zero_row_creators [] (zeros 2 0) =
     Inr \<lparr>shape0 = 1, shape1 = 2, cells = [[Finite 0, Finite 0]]\<rparr>
   \<and> fsum [Finite 0, Finite 0] = Finite 0
   \<and> update_profiles zero_row_creators [] (zeros 2 0) =
       Inr (zero_row_creators\<lparr>actual_creator_profiles :=
              \<lparr>shape0 = 1, shape1 = 2, cells = [[NaN, NaN]]\<rparr>\<rparr>)"
  by code_simp

subsection \<open>The ideal recommender's utility cache\<close>

lemma leading_whole:
  assumes "well_shaped U"
  shows "leading U (shape0 U) (shape1 U) = U"
proof -
  have l: "length (cells U) = shape0 U" and r: "\<forall>r\<in>set (cells U). length r = shape1 U"
    using assms by (simp_all add: well_shaped_def list_all_iff)
  have "map (take (shape1 U)) (cells U) = cells U"
    using r by (intro map_idI) simp
  then have "leading U (shape0 U) (shape1 U) =
      \<lparr>shape0 = shape0 U, shape1 = shape1 U, cells = cells U\<rparr>"
    using l by (simp add: leading_def)
  then show ?thesis by simp
qed

lemma full_cache_returned:
  assumes "int (shape1 item_attrs) \<noteq> n" "shape0 user_attrs = shape0 U"
    "shape1 item_attrs = shape1 U" "well_shaped U"
  shows "model_score_fn n beta (Some U) user_attrs item_attrs = (Some U, Inr U)"
  using assms by (simp add: model_score_fn_def leading_whole)

lemma shape_mismatch_fatal:
  assumes "int (shape1 item_attrs) \<noteq> n"
    "shape0 user_attrs \<noteq> shape0 U \<or> shape1 item_attrs \<noteq> shape1 U"
  shows "model_score_fn n beta (Some U) user_attrs item_attrs = (Some U, Inl AssertionError)"
  using assms by (auto simp: model_score_fn_def)

lemma batch_all_neginf:
  assumes "int (shape1 item_attrs) = n"
    and "model_score_fn n beta st user_attrs item_attrs = (st', Inr R)"
  shows "\<exists>U'. st' = Some U' \<and> R = full (shape0 U') (shape1 U') NegInf"
  using assms
  by (auto simp: model_score_fn_def Let_def split: sum.splits option.splits)

lemma batch_appends_draw:
  assumes "int (shape1 item_attrs) = n" "matmul user_attrs item_attrs = Inr M"
    "beta (clip_means M) = Inr T" "shape0 T = shape0 U"
  shows "model_score_fn n beta (Some U) user_attrs item_attrs =
     (Some \<lparr>shape0 = shape0 U, shape1 = shape1 U + shape1 T,
            cells = map2 (@) (cells U) (cells T)\<rparr>,
      Inr (full (shape0 U) (shape1 U + shape1 T) NegInf))"
  using assms by (simp add: model_score_fn_def hstack_def)

lemma failed_draw_propagates:
  assumes "int (shape1 item_attrs) = n" "matmul user_attrs item_attrs = Inr M"
    "beta (clip_means M) = Inl e"
  shows "model_score_fn n beta (Some U) user_attrs item_attrs = (Some U, Inl e)"
  using assms by (simp add: model_score_fn_def)

text \<open>
  A fresh closure can only start on an empty matrix: any other first call stops at the
  reshape, and the cache stays unset.
\<close>

lemma fresh_closure_first_call:
  assumes "shape0 user_attrs * shape1 item_attrs \<noteq> 0"
  shows "model_score_fn n beta None user_attrs item_attrs = (None, Inl ValueError)"
  using assms by (simp add: model_score_fn_def empty_utils_def)

text \<open>
  Claim C4, as amended. Once the cache \<open>U\<close> exists:
  \<^item> a call with a batch of width \<^verbatim>\<open>num_items_per_iter\<close> whose product
    \<^verbatim>\<open>user_attrs @ item_attrs\<close> is defined (\<open>M\<close>) and whose draw returns a matrix \<open>T1\<close>
    with as many rows as the cache leaves the cache with exactly the columns of \<open>T1\<close>
    appended and returns negative infinity in every entry of a matrix as wide as the
    whole cache; the second such call (its own draw \<open>T2\<close>) does the same on the grown
    cache, so it returns negative infinity in every entry too;
  \<^item> whatever the cache and the draw are, a call of that width that returns at all
    returns negative infinity in every entry;
  \<^item> when the draw raises, the call raises the same exception and the cache is
    unchanged;
  \<^item> a call of any other width that has the cache's shape returns the cached
    utilities unchanged and leaves the cache alone;
  \<^item> a call of any other width whose shape differs from the cache's fails the
    assertion.

  The width alone selects the branch, so a full-catalog call of width
  \<^verbatim>\<open>num_items_per_iter\<close> is scored as a new batch.
\<close>

theorem model_score_fn_cache_protocol:
  "(int (shape1 item_attrs) = n \<and> matmul user_attrs item_attrs = Inr M
      \<and> beta1 (clip_means M) = Inr T1 \<and> shape0 T1 = shape0 U
      \<and> beta2 (clip_means M) = Inr T2 \<and> shape0 T2 = shape0 U
     \<longrightarrow> model_score_fn n beta1 (Some U) user_attrs item_attrs =
           (Some \<lparr>shape0 = shape0 U, shape1 = shape1 U + shape1 T1,
                  cells = map2 (@) (cells U) (cells T1)\<rparr>,
            Inr (full (shape0 U) (shape1 U + shape1 T1) NegInf))
         \<and> model_score_fn n beta2
             (Some \<lparr>shape0 = shape0 U, shape1 = shape1 U + shape1 T1,
                    cells = map2 (@) (cells U) (cells T1)\<rparr>) user_attrs item_attrs =
           (Some \<lparr>shape0 = shape0 U, shape1 = shape1 U + shape1 T1 + shape1 T2,
                  cells = map2 (@) (map2 (@) (cells U) (cells T1)) (cells T2)\<rparr>,
            Inr (full (shape0 U) (shape1 U + shape1 T1 + shape1 T2) NegInf)))
   \<and> (int (shape1 item_attrs) = n
      \<and> model_score_fn n beta st user_attrs item_attrs = (st', Inr R)
     \<longrightarrow> (\<exists>U'. st' = Some U' \<and> R = full (shape0 U') (shape1 U') NegInf))
   \<and> (int (shape1 item_attrs) = n \<and> matmul user_attrs item_attrs = Inr M
      \<and> beta (clip_means M) = Inl e
     \<longrightarrow> model_score_fn n beta (Some U) user_attrs item_attrs = (Some U, Inl e))
   \<and> (int (shape1 item_attrs) \<noteq> n \<and> well_shaped U
      \<and> shape0 user_attrs = shape0 U \<and> shape1 item_attrs = shape1 U
     \<longrightarrow> model_score_fn n beta (Some U) user_attrs item_attrs = (Some U, Inr U))
   \<and> (int (shape1 item_attrs) \<noteq> n
      \<and> (shape0 user_attrs \<noteq> shape0 U \<or> shape1 item_attrs \<noteq> shape1 U)
     \<longrightarrow> model_score_fn n beta (Some U) user_attrs item_attrs = (Some U, Inl AssertionError))"
proof (intro conjI impI)
  assume a: "int (shape1 item_attrs) = n \<and> matmul user_attrs item_attrs = Inr M
      \<and> beta1 (clip_means M) = Inr T1 \<and> shape0 T1 = shape0 U
      \<and> beta2 (clip_means M) = Inr T2 \<and> shape0 T2 = shape0 U"
  then have h: "int (shape1 item_attrs) = n" "matmul user_attrs item_attrs = Inr M"
    "beta1 (clip_means M) = Inr T1" "shape0 T1 = shape0 U"
    "beta2 (clip_means M) = Inr T2" "shape0 T2 = shape0 U"
    by blast+
  show "model_score_fn n beta1 (Some U) user_attrs item_attrs =
           (Some \<lparr>shape0 = shape0 U, shape1 = shape1 U + shape1 T1,
                  cells = map2 (@) (cells U) (cells T1)\<rparr>,
            Inr (full (shape0 U) (shape1 U + shape1 T1) NegInf))"
    by (rule batch_appends_draw [where M = M and beta = beta1, OF h(1,2,3,4)])
  define U1 where "U1 = \<lparr>shape0 = shape0 U, shape1 = shape1 U + shape1 T1,
                  cells = map2 (@) (cells U) (cells T1)\<rparr>"
  have s: "shape0 T2 = shape0 U1" using h(6) by (simp add: U1_def)
  have "model_score_fn n beta2 (Some U1) user_attrs item_attrs =
     (Some \<lparr>shape0 = shape0 U1, shape1 = shape1 U1 + shape1 T2,
            cells = map2 (@) (cells U1) (cells T2)\<rparr>,
      Inr (full (shape0 U1) (shape1 U1 + shape1 T2) NegInf))"
    by (rule batch_appends_draw [where M = M and beta = beta2, OF h(1,2,5) s])
  then show "model_score_fn n beta2
             (Some \<lparr>shape0 = shape0 U, shape1 = shape1 U + shape1 T1,
                    cells = map2 (@) (cells U) (cells T1)\<rparr>) user_attrs item_attrs =
           (Some \<lparr>shape0 = shape0 U, shape1 = shape1 U + shape1 T1 + shape1 T2,
                  cells = map2 (@) (map2 (@) (cells U) (cells T1)) (cells T2)\<rparr>,
            Inr (full (shape0 U) (shape1 U + shape1 T1 + shape1 T2) NegInf))"
    by (simp add: U1_def)
next
  assume "int (shape1 item_attrs) = n
      \<and> model_score_fn n beta st user_attrs item_attrs = (st', Inr R)"
  then show "\<exists>U'. st' = Some U' \<and> R = full (shape0 U') (shape1 U') NegInf"
    using batch_all_neginf by blast
next
  assume "int (shape1 item_attrs) = n \<and> matmul user_attrs item_attrs = Inr M
      \<and> beta (clip_means M) = Inl e"
  then show "model_score_fn n beta (Some U) user_attrs item_attrs = (Some U, Inl e)"
    using failed_draw_propagates [where M = M and beta = beta and e = e] by blast
next
  assume "int (shape1 item_attrs) \<noteq> n \<and> well_shaped U
      \<and> shape0 user_attrs = shape0 U \<and> shape1 item_attrs = shape1 U"
  then show "model_score_fn n beta (Some U) user_attrs item_attrs = (Some U, Inr U)"
    by (simp add: full_cache_returned)
next
  assume "int (shape1 item_attrs) \<noteq> n
      \<and> (shape0 user_attrs \<noteq> shape0 U \<or> shape1 item_attrs \<noteq> shape1 U)"
  then show "model_score_fn n beta (Some U) user_attrs item_attrs = (Some U, Inl AssertionError)"
    by (simp add: shape_mismatch_fatal)
qed

text \<open>
  The theorem at the one-user cache \<open>[[1/2]]\<close> and the item \<open>[[1/4]]\<close>: the batch scored
  twice (the cache grows to \<open>[[1/2, 1/4]]\<close> and then to \<open>[[1/2, 1/4, 1/4]]\<close>), a draw
  that raises, a full-width call, and a mismatch.
\<close>

theorem model_score_fn_cache_protocol_witness:
  "model_score_fn 1 example_beta (Some example_utils) example_users example_item =
     (Some \<lparr>shape0 = 1, shape1 = 2, cells = [[Finite (1 / 2), Finite (1 / 4)]]\<rparr>,
      Inr (full 1 2 NegInf))
   \<and> model_score_fn 1 example_beta
       (Some \<lparr>shape0 = 1, shape1 = 2, cells = [[Finite (1 / 2), Finite (1 / 4)]]\<rparr>)
       example_users example_item =
     (Some \<lparr>shape0 = 1, shape1 = 3, cells = [[Finite (1 / 2), Finite (1 / 4), Finite (1 / 4)]]\<rparr>,
      Inr (full 1 3 NegInf))
   \<and> model_score_fn 1 failing_beta (Some example_utils) example_users example_item =
       (Some example_utils, Inl ValueError)
   \<and> model_score_fn 2 example_beta (Some example_utils) example_users example_item =
       (Some example_utils, Inr example_utils)
   \<and> model_score_fn 2 example_beta (Some example_utils) example_users (zeros 1 0) =
       (Some example_utils, Inl AssertionError)"
proof -
  have s: "shape0 example_utils = 1" "shape1 example_utils = 1" "shape0 example_users = 1"
    "shape1 example_users = 1" "shape0 example_item = 1" "shape1 example_item = 1"
    "well_shaped example_utils" "shape1 (zeros 1 0) = 0"
    "cells example_utils = [[Finite (1 / 2)]]"
    by (simp_all add: example_utils_def example_users_def example_item_def well_shaped_def zeros_def)
  have m: "matmul example_users example_item = Inr example_item" by code_simp
  have c: "clip_means example_item = example_item" by code_simp
  have b: "example_beta (clip_means example_item) = Inr example_item"
    by (simp add: c example_beta_def)
  have f: "failing_beta (clip_means example_item) = Inl ValueError"
    by (simp add: failing_beta_def)
  have t: "cells example_item = [[Finite (1 / 4)]]" by (simp add: example_item_def)
  have "model_score_fn 1 example_beta (Some example_utils) example_users example_item =
     (Some \<lparr>shape0 = 1, shape1 = 2, cells = [[Finite (1 / 2), Finite (1 / 4)]]\<rparr>,
      Inr (full 1 2 NegInf))
   \<and> model_score_fn 1 example_beta
       (Some \<lparr>shape0 = 1, shape1 = 2, cells = [[Finite (1 / 2), Finite (1 / 4)]]\<rparr>)
       example_users example_item =
     (Some \<lparr>shape0 = 1, shape1 = 3, cells = [[Finite (1 / 2), Finite (1 / 4), Finite (1 / 4)]]\<rparr>,
      Inr (full 1 3 NegInf))"
    using model_score_fn_cache_protocol
            [where item_attrs = example_item and n = 1 and user_attrs = example_users
               and M = example_item and ?beta1.0 = example_beta and ?T1.0 = example_item
               and U = example_utils and ?beta2.0 = example_beta and ?T2.0 = example_item]
          m b s t
    by (simp add: eval_nat_numeral)
  moreover have "model_score_fn 1 failing_beta (Some example_utils) example_users example_item =
       (Some example_utils, Inl ValueError)"
    using model_score_fn_cache_protocol
            [where item_attrs = example_item and n = 1 and user_attrs = example_users
               and M = example_item and U = example_utils and beta = failing_beta
               and e = ValueError]
          m f s
    by simp
  moreover have "model_score_fn 2 example_beta (Some example_utils) example_users example_item =
       (Some example_utils, Inr example_utils)"
    using model_score_fn_cache_protocol
            [where item_attrs = example_item and n = 2 and user_attrs = example_users
               and U = example_utils and beta = example_beta] s
    by simp
  moreover have "model_score_fn 2 example_beta (Some example_utils) example_users (zeros 1 0) =
       (Some example_utils, Inl AssertionError)"
    using model_score_fn_cache_protocol
            [where item_attrs = "zeros 1 0" and n = 2 and user_attrs = example_users
               and U = example_utils and beta = example_beta] s
    by simp
  ultimately show ?thesis by blast
qed

text \<open>
  Claim C4 as stated fails where the full catalog is as wide as one batch: with
  \<^verbatim>\<open>num_items_per_iter = 1\<close> and a cache of one column, the call with the full
  catalog width 1 does not return the cached utilities but a matrix of negative
  infinity, and the cache grows by a freshly drawn column.
\<close>

theorem full_width_equal_to_batch_counterexample:
  "well_shaped example_utils
   \<and> shape0 example_users = shape0 example_utils
   \<and> shape1 example_item = shape1 example_utils
   \<and> model_score_fn 1 example_beta (Some example_utils) example_users example_item =
       (Some \<lparr>shape0 = 1, shape1 = 2, cells = [[Finite (1 / 2), Finite (1 / 4)]]\<rparr>,
        Inr \<lparr>shape0 = 1, shape1 = 2, cells = [[NegInf, NegInf]]\<rparr>)
   \<and> Inr \<lparr>shape0 = 1, shape1 = 2, cells = [[NegInf, NegInf]]\<rparr> \<noteq> (Inr example_utils :: error + array2)"
  by code_simp

subsection \<open>What the popularity recommender samples\<close>

lemma gauss2: "2 * sum_list [1..<n + 1] = n * (n + 1)"
  by (induction n) auto

lemma sum_scaled_upt:
  fixes S :: rat
  shows "(\<Sum>i\<leftarrow>[1..<m + 1]. of_nat i / S) = of_nat (sum_list [1..<m + 1]) / S"
  by (induction m) (simp_all add: add_divide_distrib)

lemma frac_double: "(of_nat a :: rat) / of_nat b = of_nat (2 * a) / of_nat (2 * b)"
  by simp

lemma pronic_pos: "0 < n \<Longrightarrow> (0::rat) < of_nat (n * (n + 1))"
  by (simp only: of_nat_0_less_iff) simp

lemma cumsum_rank_weights:
  assumes "m < n"
  shows "cumsum (rank_weights n) ! m = of_nat ((m + 1) * (m + 2)) / of_nat (n * (n + 1))"
proof -
  define S :: rat where "S = of_nat (sum_list [1..<n + 1])"
  have "take (Suc m) [1..<n + 1] = [1..<1 + Suc m]"
    using assms by (intro take_upt) simp
  moreover have "1 + Suc m = (m + 1) + 1" by simp
  ultimately have tk: "take (Suc m) [1..<n + 1] = [1..<(m + 1) + 1]" by (simp only:)
  have "cumsum (rank_weights n) ! m = sum_list (take (Suc m) (map (\<lambda>i. of_nat i / S) [1..<n + 1]))"
    using assms by (simp add: cumsum_def rank_weights_def S_def)
  also have "\<dots> = (\<Sum>i\<leftarrow>[1..<(m + 1) + 1]. of_nat i / S)"
    by (simp only: take_map tk)
  also have "\<dots> = of_nat (sum_list [1..<(m + 1) + 1]) / S"
    by (rule sum_scaled_upt)
  also have "\<dots> = of_nat (2 * sum_list [1..<(m + 1) + 1]) / of_nat (2 * sum_list [1..<n + 1])"
    unfolding S_def by (rule frac_double)
  also have "\<dots> = of_nat ((m + 1) * (m + 2)) / of_nat (n * (n + 1))"
    by (simp only: gauss2) simp
  finally show ?thesis .
qed


lemma length_cumsum: "length (cumsum xs) = length xs"
  by (simp add: cumsum_def)

lemma length_rank_weights: "length (rank_weights n) = n"
  by (simp add: rank_weights_def)

lemma last_cumsum_rank_weights:
  assumes "0 < n"
  shows "last (cumsum (rank_weights n)) = 1"
proof -
  have ne: "cumsum (rank_weights n) \<noteq> []"
    using assms by (simp add: cumsum_def rank_weights_def)
  have "last (cumsum (rank_weights n)) = cumsum (rank_weights n) ! (n - 1)"
    using ne by (simp add: last_conv_nth length_cumsum length_rank_weights)
  also have "\<dots> = of_nat ((n - 1 + 1) * (n - 1 + 2)) / of_nat (n * (n + 1))"
    using assms by (intro cumsum_rank_weights) simp
  also have "\<dots> = of_nat (n * (n + 1)) / of_nat (n * (n + 1))"
    using assms by simp
  also have "\<dots> = 1"
    using pronic_pos [OF assms] by (simp only: divide_self_if) simp
  finally show ?thesis .
qed

lemma choice_cdf_rank_weights:
  assumes "m < n"
  shows "choice_cdf (rank_weights n) ! m = of_nat ((m + 1) * (m + 2)) / of_nat (n * (n + 1))"
    and "length (choice_cdf (rank_weights n)) = n"
proof -
  have "0 < n" using assms by simp
  then have l: "last (cumsum (rank_weights n)) = 1" by (rule last_cumsum_rank_weights)
  show "choice_cdf (rank_weights n) ! m = of_nat ((m + 1) * (m + 2)) / of_nat (n * (n + 1))"
    using assms cumsum_rank_weights [OF assms]
    by (simp add: choice_cdf_def l length_cumsum length_rank_weights)
  show "length (choice_cdf (rank_weights n)) = n"
    by (simp add: choice_cdf_def length_cumsum length_rank_weights)
qed

lemma choice_cdf_last:
  assumes "0 < n"
  shows "choice_cdf (rank_weights n) ! (n - 1) = 1"
proof -
  have "choice_cdf (rank_weights n) ! (n - 1) =
      of_nat ((n - 1 + 1) * (n - 1 + 2)) / of_nat (n * (n + 1))"
    using assms by (intro choice_cdf_rank_weights(1)) simp
  also have "\<dots> = of_nat (n * (n + 1)) / of_nat (n * (n + 1))"
    using assms by simp
  also have "\<dots> = 1"
    using pronic_pos [OF assms] by (simp only: divide_self_if) simp
  finally show ?thesis .
qed

lemma searchsorted_right_interval:
  assumes "0 < n" "0 \<le> u" "u < 1"
  shows "\<exists>m < n. searchsorted_right (choice_cdf (rank_weights n)) u = m
           \<and> of_nat (m * (m + 1)) \<le> u * of_nat (n * (n + 1))
           \<and> u * of_nat (n * (n + 1)) < of_nat ((m + 1) * (m + 2))"
proof -
  define cdf where "cdf = choice_cdf (rank_weights n)"
  define m where "m = length (takeWhile (\<lambda>c. c \<le> u) cdf)"
  have len: "length cdf = n"
    using choice_cdf_rank_weights(2) [of "n - 1" n] assms(1) by (simp add: cdf_def)
  have nth: "cdf ! i = of_nat ((i + 1) * (i + 2)) / of_nat (n * (n + 1))" if "i < n" for i
    using choice_cdf_rank_weights(1) [OF that] by (simp add: cdf_def)
  have pos: "(0::rat) < of_nat (n * (n + 1))" using assms(1) by (rule pronic_pos)
  have mn: "m < n"
  proof (rule ccontr)
    assume "\<not> m < n"
    then have "m = length cdf" using length_takeWhile_le [of "\<lambda>c. c \<le> u" cdf] len
      by (simp add: m_def)
    then have "takeWhile (\<lambda>c. c \<le> u) cdf = cdf"
      unfolding m_def by (metis takeWhile_eq_take take_all order_refl)
    then have "\<forall>c \<in> set cdf. c \<le> u" by (metis set_takeWhileD)
    moreover have "cdf ! (n - 1) \<in> set cdf" using len assms(1) by simp
    ultimately have "cdf ! (n - 1) \<le> u" by blast
    moreover have "cdf ! (n - 1) = 1" using choice_cdf_last [OF assms(1)] by (simp add: cdf_def)
    ultimately show False using assms(3) by simp
  qed
  have up: "u < cdf ! m"
    using nth_length_takeWhile [of "\<lambda>c. c \<le> u" cdf] mn len by (simp add: m_def)
  have lo: "of_nat (m * (m + 1)) \<le> u * of_nat (n * (n + 1))"
  proof (cases m)
    case 0
    then show ?thesis using assms(2) by simp
  next
    case (Suc i)
    then have i: "i < length (takeWhile (\<lambda>c. c \<le> u) cdf)" by (simp add: m_def)
    then have "takeWhile (\<lambda>c. c \<le> u) cdf ! i \<in> set (takeWhile (\<lambda>c. c \<le> u) cdf)" by simp
    then have "takeWhile (\<lambda>c. c \<le> u) cdf ! i \<le> u" by (metis set_takeWhileD)
    then have "cdf ! i \<le> u" using takeWhile_nth [OF i] by simp
    moreover have "i < n" using Suc mn by simp
    ultimately have "of_nat ((i + 1) * (i + 2)) / of_nat (n * (n + 1)) \<le> u"
      using nth [of i] by simp
    then have "of_nat ((i + 1) * (i + 2)) \<le> u * of_nat (n * (n + 1))"
      using pos by (simp add: pos_divide_le_eq)
    then show ?thesis using Suc by (simp add: mult.commute)
  qed
  have "u < of_nat ((m + 1) * (m + 2)) / of_nat (n * (n + 1))"
    using up nth [OF mn] by simp
  then have hi: "u * of_nat (n * (n + 1)) < of_nat ((m + 1) * (m + 2))"
    using pos by (simp add: pos_less_divide_eq)
  show ?thesis
    using mn lo hi by (auto simp: searchsorted_right_def m_def cdf_def)
qed

lemma stable_argsort_ascending: "ascending xs (stable_argsort xs)"
  by (simp add: ascending_def stable_argsort_def list_all_iff)

lemma pronic_less:
  fixes a b :: nat
  assumes "a * (a + 1) < (b + 1) * (b + 2)"
  shows "a \<le> b"
proof (rule ccontr)
  assume "\<not> a \<le> b"
  then have "b + 1 \<le> a" by simp
  then have "(b + 1) * (b + 2) \<le> a * (a + 1)" by (intro mult_le_mono) simp_all
  with assms show False by simp
qed

text \<open>
  A variate that lies in the interval of rank \<open>a\<close> and, with the margin, inside the
  interval of rank \<open>m\<close>, is of rank \<open>m\<close>.
\<close>

lemma margin_rank:
  fixes x :: rat
  assumes "of_nat (a * (a + 1)) \<le> x" "x < of_nat ((a + 1) * (a + 2))"
    and "of_nat (m * (m + 1)) * (1 + 1 / 1000000000) \<le> x"
    and "x \<le> of_nat ((m + 1) * (m + 2)) * (1 - 1 / 1000000000)"
  shows "a = m"
proof -
  have "(0::rat) \<le> of_nat (m * (m + 1))" by simp
  then have "(of_nat (m * (m + 1)) :: rat) \<le> of_nat (m * (m + 1)) * (1 + 1 / 1000000000)"
    by (simp add: algebra_simps)
  with assms(2,3) have "(of_nat (m * (m + 1)) :: rat) < of_nat ((a + 1) * (a + 2))" by linarith
  then have "m * (m + 1) < (a + 1) * (a + 2)" by (simp only: of_nat_less_iff)
  then have ma: "m \<le> a" by (rule pronic_less)
  have "(0::rat) < of_nat ((m + 1) * (m + 2))" by (simp only: of_nat_0_less_iff) simp
  then have "(of_nat ((m + 1) * (m + 2)) :: rat) * (1 - 1 / 1000000000) < of_nat ((m + 1) * (m + 2))"
    by (simp add: algebra_simps)
  with assms(1,4) have "(of_nat (a * (a + 1)) :: rat) < of_nat ((m + 1) * (m + 2))" by linarith
  then have "a * (a + 1) < (m + 1) * (m + 2)" by (simp only: of_nat_less_iff)
  then have "a \<le> m" by (rule pronic_less)
  with ma show ?thesis by simp
qed

text \<open>
  Claim C5, as amended. On a recommender with between one and a million items whose
  first score row has one score per item, \<^verbatim>\<open>recommend\<close> returns, for each of the
  \<open>num_users\<close> users, \<open>k\<close> items sampled independently with replacement by rank. With
  \<open>n = num_items\<close> and \<open>u\<close> the uniform variate of the cell of user \<open>i\<close> and position
  \<open>j\<close>: the cell holds an item of the catalog, and it holds the item at rank \<open>m\<close> of
  the ascending popularity ordering whenever
  \<open>m(m+1) * (1 + 1e-9) \<le> u * n(n+1) \<le> (m+1)(m+2) * (1 - 1e-9)\<close>, that is whenever \<open>u\<close>
  lies in the interval between the cumulative weights of the ranks below \<open>m\<close> and up
  to \<open>m\<close>, whose length \<open>2(m+1) / (n(n+1))\<close> is proportional to the linear rank weight
  \<open>m + 1\<close> (not to the popularity count), and at least a relative \<open>1e-9\<close> away from
  its ends. Two cells of a user whose variates agree hold the same item, so a user can
  be recommended an item twice. The margin and the bound on the catalog are for
  doubles, whose cumulative weights are within a relative \<open>2(n+1) * 2^-53\<close> of the
  exact ones.
\<close>

theorem recommend_samples_ranks_with_replacement:
  assumes "s_t r = row # others" and "length row = num_items r" and "0 < num_items r"
    and "num_items r \<le> 1000000"
    and "ascending row (argsort row)"
    and "\<forall>t. 0 \<le> g t \<and> g t < 1"
  shows "\<exists>R. snd (recommend r k argsort g) = Inr R \<and> length R = num_users r
      \<and> (\<forall>i < num_users r. length (R ! i) = k
            \<and> (\<forall>j < k. R ! i ! j < num_items r \<and> R ! i ! j \<in> set (argsort row)
                  \<and> (\<forall>m < num_items r.
                        of_nat (m * (m + 1)) * (1 + 1 / 1000000000)
                          \<le> g (i * k + j) * of_nat (num_items r * (num_items r + 1))
                        \<and> g (i * k + j) * of_nat (num_items r * (num_items r + 1))
                          \<le> of_nat ((m + 1) * (m + 2)) * (1 - 1 / 1000000000)
                      \<longrightarrow> R ! i ! j = argsort row ! m))
            \<and> (\<forall>j < k. \<forall>j' < k. g (i * k + j) = g (i * k + j') \<longrightarrow> R ! i ! j = R ! i ! j'))"
proof -
  define N where "N = num_items r"
  define cdf where "cdf = choice_cdf (rank_weights N)"
  define R where "R = map (\<lambda>i. map (\<lambda>j. argsort row ! searchsorted_right cdf (g (i * k + j))) [0..<k])
                          [0..<num_users r]"
  have perm: "length (argsort row) = N" "\<forall>i \<in> set (argsort row). i < N"
    using assms(5,2) by (simp_all add: ascending_def N_def list_all_iff)
  have "length (rank_weights (num_items r)) \<noteq> 0"
    using assms(3) by (simp add: length_rank_weights)
  then have ne: "rank_weights (num_items r) \<noteq> []" by simp
  have res: "snd (recommend r k argsort g) = Inr R"
    using assms(1) perm(1) ne
    by (simp add: recommend_def Let_def length_rank_weights R_def cdf_def N_def)
  have cell: "R ! i ! j < N \<and> R ! i ! j \<in> set (argsort row)
                  \<and> (\<forall>m < N.
                        of_nat (m * (m + 1)) * (1 + 1 / 1000000000)
                          \<le> g (i * k + j) * of_nat (N * (N + 1))
                        \<and> g (i * k + j) * of_nat (N * (N + 1))
                          \<le> of_nat ((m + 1) * (m + 2)) * (1 - 1 / 1000000000)
                      \<longrightarrow> R ! i ! j = argsort row ! m)"
    if "i < num_users r" "j < k" for i j
  proof -
    have u: "0 \<le> g (i * k + j)" "g (i * k + j) < 1" using assms(6) by simp_all
    have n: "0 < N" using assms(3) by (simp add: N_def)
    from searchsorted_right_interval [OF n u] obtain a where a: "a < N"
      "searchsorted_right cdf (g (i * k + j)) = a"
      "of_nat (a * (a + 1)) \<le> g (i * k + j) * of_nat (N * (N + 1))"
      "g (i * k + j) * of_nat (N * (N + 1)) < of_nat ((a + 1) * (a + 2))"
      unfolding cdf_def by blast
    have c: "R ! i ! j = argsort row ! a" using that a(2) by (simp add: R_def)
    have mem: "argsort row ! a \<in> set (argsort row)" using a(1) perm(1) by simp
    then have lt: "argsort row ! a < N" using perm(2) by blast
    have pin: "R ! i ! j = argsort row ! m"
      if "of_nat (m * (m + 1)) * (1 + 1 / 1000000000)
            \<le> g (i * k + j) * of_nat (N * (N + 1))"
        and "g (i * k + j) * of_nat (N * (N + 1))
            \<le> of_nat ((m + 1) * (m + 2)) * (1 - 1 / 1000000000)" for m
      using margin_rank [OF a(3,4) that] c by simp
    from c mem lt pin show ?thesis by simp
  qed
  have same: "R ! i ! j = R ! i ! j'"
    if "i < num_users r" "j < k" "j' < k" "g (i * k + j) = g (i * k + j')" for i j j'
    using that by (simp add: R_def)
  have len: "length R = num_users r" "\<forall>i < num_users r. length (R ! i) = k"
    by (simp_all add: R_def)
  show ?thesis
    using res len cell same unfolding N_def by blast
qed

text \<open>
  The theorem at the two-item recommender, two recommendations, both variates 1/2:
  \<open>u * n(n+1) = 3\<close> lies inside the interval \<open>[2, 6]\<close> of rank 1, so both cells hold the
  item at rank 1.
\<close>

theorem recommend_samples_ranks_with_replacement_witness:
  "s_t two_items = [0, 1] # [] \<and> length [0, 1 :: int] = num_items two_items
   \<and> 0 < num_items two_items \<and> num_items two_items \<le> 1000000
   \<and> ascending [0, 1] (stable_argsort [0, 1])
   \<and> (\<forall>t :: nat. (0 :: rat) \<le> 1 / 2 \<and> (1 / 2 :: rat) < 1)
   \<and> (\<exists>R. snd (recommend two_items 2 stable_argsort (\<lambda>t. 1 / 2)) = Inr R
         \<and> length R = num_users two_items
         \<and> length (R ! 0) = 2 \<and> R ! 0 ! 0 = stable_argsort [0, 1] ! 1
         \<and> R ! 0 ! 1 = stable_argsort [0, 1] ! 1 \<and> R ! 0 ! 0 = R ! 0 ! 1)"
proof -
  have h1: "s_t two_items = [0, 1] # []" by (simp add: two_items_def)
  have h2: "length [0, 1 :: int] = num_items two_items" by (simp add: two_items_def)
  have h3: "0 < num_items two_items" by (simp add: two_items_def)
  have h4: "num_items two_items \<le> 1000000" by (simp add: two_items_def)
  have h5: "ascending [0, 1] (stable_argsort [0, 1])" by (rule stable_argsort_ascending)
  have h6: "\<forall>t :: nat. (0 :: rat) \<le> (\<lambda>t. 1 / 2) t \<and> (\<lambda>t. 1 / 2 :: rat) t < 1" by simp
  have n: "(0 :: nat) < num_users two_items" "num_items two_items = 2"
    by (simp_all add: two_items_def)
  from recommend_samples_ranks_with_replacement
         [where argsort = stable_argsort and g = "\<lambda>t. 1 / 2" and k = 2, OF h1 h2 h3 h4 h5 h6]
  obtain R where R: "snd (recommend two_items 2 stable_argsort (\<lambda>t. 1 / 2)) = Inr R"
    "length R = num_users two_items"
    "\<forall>i < num_users two_items. length (R ! i) = 2
        \<and> (\<forall>j < 2. \<forall>m < num_items two_items.
              of_nat (m * (m + 1)) * (1 + 1 / 1000000000)
                 \<le> (1 / 2 :: rat) * of_nat (num_items two_items * (num_items two_items + 1))
              \<and> (1 / 2 :: rat) * of_nat (num_items two_items * (num_items two_items + 1))
                 \<le> of_nat ((m + 1) * (m + 2)) * (1 - 1 / 1000000000)
              \<longrightarrow> R ! i ! j = stable_argsort [0, 1] ! m)"
    by blast
  from R(3) n(1) have l: "length (R ! 0) = 2" by blast
  have pin: "R ! 0 ! j = stable_argsort [0, 1] ! 1" if "j < 2" for j
  proof -
    have "(1 :: nat) < num_items two_items" using n(2) by simp
    moreover have "of_nat (1 * (1 + 1)) * (1 + 1 / 1000000000)
                 \<le> (1 / 2 :: rat) * of_nat (num_items two_items * (num_items two_items + 1))
              \<and> (1 / 2 :: rat) * of_nat (num_items two_items * (num_items two_items + 1))
                 \<le> of_nat ((1 + 1) * (1 + 2)) * (1 - 1 / 1000000000)"
      by (simp add: n(2))
    ultimately show ?thesis using R(3) n(1) that by blast
  qed
  have "R ! 0 ! 0 = stable_argsort [0, 1] ! 1" "R ! 0 ! 1 = stable_argsort [0, 1] ! 1"
    using pin by simp_all
  with R(1,2) l h1 h2 h3 h4 h5 show ?thesis by auto
qed

text \<open>
  Claim C5 as stated fails: with both variates at 1/2 the single user is recommended
  item 1 twice in one call.
\<close>

theorem recommend_repeats_item_counterexample:
  "snd (recommend two_items 2 stable_argsort (\<lambda>t. 1 / 2)) = Inr [[1, 1]]
   \<and> \<not> distinct [1, 1 :: nat]"
  by code_simp

end
